theory Spec2Isabelle
  imports Main
begin

section \<open>Strings and identifiers\<close>

text \<open>
  Strings are byte lists. \<open>trim\<close> and \<open>toLowerCase\<close> are the two string
  operations the schemas and the routes use (\<open>trim: true\<close>, \<open>lowercase: true\<close>,
  \<open>String(v).toLowerCase()\<close>); they are taken on the ASCII range.
\<close>

definition isSpace :: "char \<Rightarrow> bool" where
  "isSpace c \<longleftrightarrow> c \<in> set [CHR '' '', CHR 0x09, CHR 0x0A, CHR 0x0B, CHR 0x0C, CHR 0x0D]"

definition trim :: "string \<Rightarrow> string" where
  "trim s = rev (dropWhile isSpace (rev (dropWhile isSpace s)))"

definition lowerChar :: "char \<Rightarrow> char" where
  "lowerChar c =
     (let n = (of_char c :: nat) in if 65 \<le> n \<and> n \<le> 90 then char_of (n + 32) else c)"

definition toLowerCase :: "string \<Rightarrow> string" where
  "toLowerCase s = map lowerChar s"

text \<open>
  \<open>parseInt(v, 10)\<close>: leading white space, an optional sign, then the longest run
  of decimal digits; \<open>None\<close> is NaN.
\<close>

definition isDigit :: "char \<Rightarrow> bool" where
  "isDigit c \<longleftrightarrow> c \<in> set ''0123456789''"

definition digitVal :: "char \<Rightarrow> nat" where
  "digitVal c = (of_char c :: nat) - 48"

definition parseInt :: "string \<Rightarrow> int option" where
  "parseInt v =
     (let s1 = dropWhile isSpace v;
          neg = (case s1 of [] \<Rightarrow> False | c # _ \<Rightarrow> c = CHR ''-'');
          s2 = (case s1 of [] \<Rightarrow> [] | c # r \<Rightarrow> if c = CHR ''-'' \<or> c = CHR ''+'' then r else s1);
          ds = takeWhile isDigit s2;
          n = int (foldl (\<lambda>a c. 10 * a + digitVal c) 0 ds)
      in if ds = [] then None else Some (if neg then - n else n))"

text \<open>\<open>toInt = (v, dflt = 0) => (v !== undefined ? parseInt(v, 10) : dflt)\<close>\<close>

definition toInt :: "string option \<Rightarrow> int \<Rightarrow> int option" where
  "toInt v dflt = (case v of None \<Rightarrow> Some dflt | Some x \<Rightarrow> parseInt x)"

text \<open>\<open>asBool = (v) => String(v).toLowerCase() === 'true'\<close>\<close>

definition asBool :: "string option \<Rightarrow> bool" where
  "asBool v = (case v of None \<Rightarrow> False | Some x \<Rightarrow> toLowerCase x = ''true'')"

text \<open>
  The store's identifiers are ObjectIds, written as 24 hexadecimal digits.
  \<open>isValidId\<close> is \<open>mongoose.Types.ObjectId.isValid\<close> on a string; the driver reads
  the digits in either case and prints an identifier in lower case, which is
  what \<open>String(doc._id)\<close> yields. \<open>castObjectId\<close> is the cast every query on
  \<open>_id\<close> applies to its argument: it fails (a CastError) on a string that is
  not an identifier.
\<close>

definition isHexDigit :: "char \<Rightarrow> bool" where
  "isHexDigit c \<longleftrightarrow> c \<in> set ''0123456789abcdefABCDEF''"

definition isValidId :: "string \<Rightarrow> bool" where
  "isValidId i \<longleftrightarrow> length i = 24 \<and> list_all isHexDigit i"

definition castObjectId :: "string \<Rightarrow> string option" where
  "castObjectId i = (if isValidId i then Some (toLowerCase i) else None)"

fun castAll :: "string list \<Rightarrow> string list option" where
  "castAll [] = Some []"
| "castAll (x # xs) =
     (case castObjectId x of
        None \<Rightarrow> None
      | Some i \<Rightarrow> (case castAll xs of None \<Rightarrow> None | Some is \<Rightarrow> Some (i # is)))"


section \<open>Data model\<close>

text \<open>\<open>models/task.js\<close> and \<open>models/user.js\<close>; \<open>_id\<close> is held as the string it prints to.\<close>

record task =
  t_id :: string
  t_name :: string
  description :: string
  deadline :: int
  completed :: bool
  assignedUser :: string
  assignedUserName :: string
  t_dateCreated :: int

record user =
  u_id :: string
  u_name :: string
  email :: string
  pendingTasks :: "string list"
  u_dateCreated :: int

record store =
  tasks :: "task list"
  users :: "user list"

definition empty_store :: store where
  "empty_store = \<lparr>tasks = [], users = []\<rparr>"

text \<open>What a rejected promise carries into the \<open>catch\<close> block of a handler.\<close>

datatype exn = SyntaxError | ValidationError | CastError | DuplicateKey | StoreError


section \<open>Store operations\<close>

fun updateFirst :: "('a \<Rightarrow> bool) \<Rightarrow> ('a \<Rightarrow> 'a) \<Rightarrow> 'a list \<Rightarrow> 'a list" where
  "updateFirst P f [] = []"
| "updateFirst P f (x # xs) = (if P x then f x # xs else x # updateFirst P f xs)"

fun deleteFirst :: "('a \<Rightarrow> bool) \<Rightarrow> 'a list \<Rightarrow> 'a list" where
  "deleteFirst P [] = []"
| "deleteFirst P (x # xs) = (if P x then xs else x # deleteFirst P xs)"

definition updateAll :: "('a \<Rightarrow> bool) \<Rightarrow> ('a \<Rightarrow> 'a) \<Rightarrow> 'a list \<Rightarrow> 'a list" where
  "updateAll P f xs = map (\<lambda>x. if P x then f x else x) xs"

text \<open>\<open>$addToSet\<close> and \<open>$pull\<close> on an array field.\<close>

definition addToSet :: "string \<Rightarrow> string list \<Rightarrow> string list" where
  "addToSet x xs = (if x \<in> set xs then xs else xs @ [x])"

definition pull :: "string \<Rightarrow> string list \<Rightarrow> string list" where
  "pull x xs = filter (\<lambda>y. y \<noteq> x) xs"

text \<open>\<open>Task.findById\<close>, \<open>User.findById\<close>\<close>

definition Task_findById :: "task list \<Rightarrow> string \<Rightarrow> exn + task option" where
  "Task_findById ts i =
     (case castObjectId i of
        None \<Rightarrow> Inl CastError
      | Some oid \<Rightarrow> Inr (find (\<lambda>t. t_id t = oid) ts))"

definition User_findById :: "user list \<Rightarrow> string \<Rightarrow> exn + user option" where
  "User_findById us i =
     (case castObjectId i of
        None \<Rightarrow> Inl CastError
      | Some oid \<Rightarrow> Inr (find (\<lambda>u. u_id u = oid) us))"

text \<open>
  \<open>User.updateOne({ _id: i }, { $addToSet: { pendingTasks: tid } })\<close> and
  \<open>User.updateOne({ _id: i }, { $pull: { pendingTasks: tid } })\<close>
\<close>

definition User_addPending :: "string \<Rightarrow> string \<Rightarrow> user list \<Rightarrow> exn + user list" where
  "User_addPending i tid us =
     (case castObjectId i of
        None \<Rightarrow> Inl CastError
      | Some oid \<Rightarrow>
          Inr (updateFirst (\<lambda>u. u_id u = oid)
                 (\<lambda>u. u\<lparr>pendingTasks := addToSet tid (pendingTasks u)\<rparr>) us))"

definition User_pullPending :: "string \<Rightarrow> string \<Rightarrow> user list \<Rightarrow> exn + user list" where
  "User_pullPending i tid us =
     (case castObjectId i of
        None \<Rightarrow> Inl CastError
      | Some oid \<Rightarrow>
          Inr (updateFirst (\<lambda>u. u_id u = oid)
                 (\<lambda>u. u\<lparr>pendingTasks := pull tid (pendingTasks u)\<rparr>) us))"

text \<open>
  \<open>Task.create\<close> and \<open>doc.save()\<close> validate first (\<open>name\<close> is required, and the
  schema has trimmed it); the store then refuses a second document with the
  same \<open>_id\<close>.
\<close>

definition Task_create :: "task \<Rightarrow> task list \<Rightarrow> exn + task list" where
  "Task_create t ts =
     (if t_name t = [] then Inl ValidationError
      else if t_id t \<in> set (map t_id ts) then Inl DuplicateKey
      else Inr (ts @ [t]))"

definition Task_save :: "task \<Rightarrow> task list \<Rightarrow> exn + task list" where
  "Task_save t ts =
     (if t_name t = [] then Inl ValidationError
      else Inr (updateFirst (\<lambda>x. t_id x = t_id t) (\<lambda>_. t) ts))"

definition Task_deleteOne :: "task \<Rightarrow> task list \<Rightarrow> task list" where
  "Task_deleteOne t ts = deleteFirst (\<lambda>x. t_id x = t_id t) ts"

text \<open>
  \<open>Task.updateMany({ _id: { $in: ids }, completed: false },
     { $set: { assignedUser: uid, assignedUserName: nm } })\<close>
\<close>

definition Task_assignMany :: "string list \<Rightarrow> string \<Rightarrow> string \<Rightarrow> task list \<Rightarrow> exn + task list" where
  "Task_assignMany ids uid nm ts =
     (case castAll ids of
        None \<Rightarrow> Inl CastError
      | Some oids \<Rightarrow>
          Inr (updateAll (\<lambda>t. t_id t \<in> set oids \<and> \<not> completed t)
                 (\<lambda>t. t\<lparr>assignedUser := uid, assignedUserName := nm\<rparr>) ts))"

text \<open>
  \<open>Task.updateMany({ _id: { $in: ids } },
     { $set: { assignedUser: '', assignedUserName: 'unassigned' } })\<close>
\<close>

definition Task_unassignIds :: "string list \<Rightarrow> task list \<Rightarrow> exn + task list" where
  "Task_unassignIds ids ts =
     (case castAll ids of
        None \<Rightarrow> Inl CastError
      | Some oids \<Rightarrow>
          Inr (updateAll (\<lambda>t. t_id t \<in> set oids)
                 (\<lambda>t. t\<lparr>assignedUser := '''', assignedUserName := ''unassigned''\<rparr>) ts))"

text \<open>
  \<open>Task.updateMany({ assignedUser: uid, completed: false },
     { $set: { assignedUser: '', assignedUserName: 'unassigned' } })\<close>;
  \<open>assignedUser\<close> is a string field, matched as a string.
\<close>

definition Task_unassignUser :: "string \<Rightarrow> task list \<Rightarrow> task list" where
  "Task_unassignUser uid ts =
     updateAll (\<lambda>t. assignedUser t = uid \<and> \<not> completed t)
       (\<lambda>t. t\<lparr>assignedUser := '''', assignedUserName := ''unassigned''\<rparr>) ts"

text \<open>\<open>Task.find({ assignedUser: uid, completed: false }).select({ _id: 1 })\<close>\<close>

definition Task_pendingOf :: "string \<Rightarrow> task list \<Rightarrow> task list" where
  "Task_pendingOf uid ts = filter (\<lambda>t. assignedUser t = uid \<and> \<not> completed t) ts"

text \<open>
  The \<open>email\<close> path of the user schema trims and lower-cases what is written to
  it, and what a query compares it with.
\<close>

definition emailSetters :: "string \<Rightarrow> string" where
  "emailSetters e = toLowerCase (trim e)"

text \<open>\<open>User.findOne({ email: e })\<close> and \<open>User.findOne({ email: e, _id: { $ne: i } })\<close>\<close>

definition User_findByEmail :: "user list \<Rightarrow> string \<Rightarrow> user option" where
  "User_findByEmail us e = find (\<lambda>u. email u = emailSetters e) us"

definition User_findByEmailExcept :: "user list \<Rightarrow> string \<Rightarrow> string \<Rightarrow> exn + user option" where
  "User_findByEmailExcept us e i =
     (case castObjectId i of
        None \<Rightarrow> Inl CastError
      | Some oid \<Rightarrow> Inr (find (\<lambda>u. email u = emailSetters e \<and> u_id u \<noteq> oid) us))"

text \<open>
  \<open>User.create\<close> and \<open>user.save()\<close>: \<open>name\<close> and \<open>email\<close> are required; the unique
  index on \<open>email\<close> (and the one on \<open>_id\<close>) answers a duplicate with error code
  11000.
\<close>

definition User_create :: "user \<Rightarrow> user list \<Rightarrow> exn + user list" where
  "User_create u us =
     (if u_name u = [] \<or> email u = [] then Inl ValidationError
      else if u_id u \<in> set (map u_id us) \<or> email u \<in> set (map email us) then Inl DuplicateKey
      else Inr (us @ [u]))"

definition User_save :: "user \<Rightarrow> user list \<Rightarrow> exn + user list" where
  "User_save u us =
     (if u_name u = [] \<or> email u = [] then Inl ValidationError
      else if email u \<in> set (map email (filter (\<lambda>x. u_id x \<noteq> u_id u) us)) then Inl DuplicateKey
      else Inr (updateFirst (\<lambda>x. u_id x = u_id u) (\<lambda>_. u) us))"

definition User_deleteOne :: "user \<Rightarrow> user list \<Rightarrow> user list" where
  "User_deleteOne u us = deleteFirst (\<lambda>x. u_id x = u_id u) us"


section \<open>Requests and responses\<close>

text \<open>
  A response is a status code and, except for 204, the envelope
  \<open>{ message, data }\<close>. A returned document carries the field projection that
  \<open>?select=\<close> asked for, if any.
\<close>

type_synonym projection = "(string \<times> int) list"

datatype payload =
    Null
  | Count nat
  | TaskDoc "projection option" task
  | TaskDocs "projection option" "task list"
  | UserDoc "projection option" user
  | UserDocs "projection option" "user list"

record response =
  status :: nat
  body :: "(string \<times> payload) option"

definition ok :: "payload \<Rightarrow> string \<Rightarrow> response" where
  "ok d m = \<lparr>status = 200, body = Some (m, d)\<rparr>"

definition created :: "payload \<Rightarrow> response" where
  "created d = \<lparr>status = 201, body = Some (''Created'', d)\<rparr>"

definition bad :: "string \<Rightarrow> response" where
  "bad m = \<lparr>status = 400, body = Some (m, Null)\<rparr>"

definition notFound :: "string \<Rightarrow> response" where
  "notFound m = \<lparr>status = 404, body = Some (m, Null)\<rparr>"

definition fail :: response where
  "fail = \<lparr>status = 500, body = Some (''Server Error'', Null)\<rparr>"

definition noContent :: response where
  "noContent = \<lparr>status = 204, body = None\<rparr>"

text \<open>
  A JSON-valued query parameter (\<open>where\<close>, \<open>sort\<close>, \<open>select\<close>) after
  \<open>req.query.x ? parseJSON(req.query.x) : dflt\<close>: absent or empty, not JSON
  (\<open>JSON.parse\<close> throws a SyntaxError), JSON for a falsy value, JSON the store
  refuses as a filter, sort or projection, or a value the store takes: a
  filter as the predicate it denotes, a sort as the reordering it denotes.
\<close>

datatype 'a jparam = JAbsent | JMalformed | JFalsy | JRejected | JValue 'a

fun isMalformed :: "'a jparam \<Rightarrow> bool" where
  "isMalformed JMalformed = True"
| "isMalformed _ = False"

record 'a list_query =
  q_where :: "('a \<Rightarrow> bool) jparam"
  q_sort :: "('a list \<Rightarrow> 'a list) jparam"
  q_select :: "projection jparam"
  q_skip :: "string option"
  q_limit :: "string option"
  q_count :: "string option"

text \<open>
  The request bodies, after \<open>req.body || {}\<close> and destructuring: \<open>None\<close> is
  \<open>undefined\<close> or \<open>null\<close>. The deadline is a point in time in milliseconds.
  \<open>pendingTasks\<close> is \<open>None\<close> when the body holds no array there.
\<close>

record task_body =
  b_name :: "string option"
  b_description :: "string option"
  b_deadline :: "int option"
  b_completed :: "bool option"
  b_assignedUser :: "string option"
  b_assignedUserName :: "string option"

record user_body =
  ub_name :: "string option"
  ub_email :: "string option"
  ub_pendingTasks :: "string list option"

text \<open>\<open>x ?? d\<close> and the truth value of a string.\<close>

definition orElse :: "'a option \<Rightarrow> 'a \<Rightarrow> 'a" where
  "orElse x d = (case x of None \<Rightarrow> d | Some v \<Rightarrow> v)"

definition truthy :: "string option \<Rightarrow> bool" where
  "truthy x = (case x of None \<Rightarrow> False | Some v \<Rightarrow> v \<noteq> [])"


section \<open>Query execution of the list endpoints\<close>

text \<open>
  \<open>q.skip(n)\<close> is only called for a truthy \<open>n\<close>; the store refuses a negative
  one. \<open>q.limit(n)\<close>: 0 is no limit, a negative limit counts as its absolute
  value, NaN is refused.
\<close>

definition applySkip :: "int option \<Rightarrow> 'a list \<Rightarrow> exn + 'a list" where
  "applySkip k xs =
     (case k of
        None \<Rightarrow> Inr xs
      | Some n \<Rightarrow> if n = 0 then Inr xs else if n < 0 then Inl StoreError else Inr (drop (nat n) xs))"

definition applyLimit :: "int option \<Rightarrow> 'a list \<Rightarrow> exn + 'a list" where
  "applyLimit l xs =
     (case l of
        None \<Rightarrow> Inl StoreError
      | Some n \<Rightarrow> if n = 0 then Inr xs else Inr (take (nat \<bar>n\<bar>) xs))"

text \<open>\<open>Model.find(where || {})\<close> and \<open>Model.countDocuments(where || {})\<close>\<close>

definition findWhere :: "('a \<Rightarrow> bool) jparam \<Rightarrow> 'a list \<Rightarrow> exn + 'a list" where
  "findWhere w xs =
     (case w of
        JValue P \<Rightarrow> Inr (filter P xs)
      | JRejected \<Rightarrow> Inl StoreError
      | _ \<Rightarrow> Inr xs)"

text \<open>\<open>q.sort({ dateCreated: -1 })\<close>\<close>

definition newestFirst :: "task list \<Rightarrow> task list" where
  "newestFirst ts = sort_key (\<lambda>t. - t_dateCreated t) ts"

definition selectOf :: "projection jparam \<Rightarrow> exn + projection option" where
  "selectOf p =
     (case p of
        JValue f \<Rightarrow> Inr (Some f)
      | JRejected \<Rightarrow> Inl StoreError
      | _ \<Rightarrow> Inr None)"


section \<open>The consistency synchronizer (\<open>routes/tasks.js\<close>)\<close>

definition syncUserPendingForTask :: "task \<Rightarrow> string option \<Rightarrow> user list \<Rightarrow> exn option \<times> user list" where
  "syncUserPendingForTask task prevAssignedUserId us =
     (case (if \<not> completed task \<and> assignedUser task \<noteq> []
            then User_addPending (assignedUser task) (t_id task) us else Inr us) of
        Inl e \<Rightarrow> (Some e, us)
      | Inr us1 \<Rightarrow>
          (case (if truthy prevAssignedUserId \<and> orElse prevAssignedUserId [] \<noteq> assignedUser task
                 then User_pullPending (orElse prevAssignedUserId []) (t_id task) us1 else Inr us1) of
             Inl e \<Rightarrow> (Some e, us1)
           | Inr us2 \<Rightarrow>
               (case (if completed task \<or> assignedUser task = []
                      then (if assignedUser task \<noteq> []
                            then User_pullPending (assignedUser task) (t_id task) us2 else Inr us2)
                      else Inr us2) of
                  Inl e \<Rightarrow> (Some e, us2)
                | Inr us3 \<Rightarrow> (None, us3))))"


section \<open>Task routes (\<open>routes/tasks.js\<close>)\<close>

text \<open>The \<open>catch\<close> blocks.\<close>

definition tasks_list_catch :: "exn \<Rightarrow> response" where
  "tasks_list_catch e = (if e = SyntaxError then bad ''Invalid JSON in query'' else fail)"

definition tasks_one_catch :: "exn \<Rightarrow> response" where
  "tasks_one_catch e = (if e = SyntaxError then bad ''Invalid JSON in select'' else fail)"

definition tasks_write_catch :: "exn \<Rightarrow> response" where
  "tasks_write_catch e = (if e = ValidationError then bad ''Task validation failed'' else fail)"

text \<open>GET /api/tasks\<close>

definition tasks_get :: "task list_query \<Rightarrow> store \<Rightarrow> response" where
  "tasks_get q s =
     (if isMalformed (q_where q) \<or> isMalformed (q_sort q) \<or> isMalformed (q_select q)
      then tasks_list_catch SyntaxError
      else
        let skip = toInt (q_skip q) 0;
            limit = (case q_limit q of None \<Rightarrow> Some 100 | Some v \<Rightarrow> toInt (Some v) 0)
        in if asBool (q_count q)
           then (case findWhere (q_where q) (tasks s) of
                   Inl e \<Rightarrow> tasks_list_catch e
                 | Inr docs \<Rightarrow> ok (Count (length docs)) ''OK'')
           else
             (case findWhere (q_where q) (tasks s) of
                Inl e \<Rightarrow> tasks_list_catch e
              | Inr found \<Rightarrow>
                  (case (case q_sort q of
                           JValue f \<Rightarrow> Inr (f found)
                         | JRejected \<Rightarrow> Inl StoreError
                         | _ \<Rightarrow> Inr (newestFirst found)) of
                     Inl e \<Rightarrow> tasks_list_catch e
                   | Inr ordered \<Rightarrow>
                       (case selectOf (q_select q) of
                          Inl e \<Rightarrow> tasks_list_catch e
                        | Inr sel \<Rightarrow>
                            (case applySkip skip ordered of
                               Inl e \<Rightarrow> tasks_list_catch e
                             | Inr skipped \<Rightarrow>
                                 (case applyLimit limit skipped of
                                    Inl e \<Rightarrow> tasks_list_catch e
                                  | Inr docs \<Rightarrow> ok (TaskDocs sel docs) ''OK''))))))"

text \<open>POST /api/tasks; \<open>newId\<close> is the identifier the new document is given, \<open>now\<close> the clock.\<close>

definition tasks_post :: "string \<Rightarrow> int \<Rightarrow> task_body \<Rightarrow> store \<Rightarrow> response \<times> store" where
  "tasks_post newId now b s =
     (if \<not> truthy (b_name b) \<or> b_deadline b = None \<or> b_deadline b = Some 0
      then (bad ''Task name and deadline are required'', s)
      else
        let t = \<lparr>t_id = newId,
                 t_name = trim (orElse (b_name b) []),
                 description = trim (orElse (b_description b) []),
                 deadline = orElse (b_deadline b) 0,
                 completed = orElse (b_completed b) False,
                 assignedUser = trim (orElse (b_assignedUser b) []),
                 assignedUserName =
                   trim (orElse (b_assignedUserName b)
                           (if truthy (b_assignedUser b) then [] else ''unassigned'')),
                 t_dateCreated = now\<rparr>
        in case Task_create t (tasks s) of
             Inl e \<Rightarrow> (tasks_write_catch e, s)
           | Inr ts1 \<Rightarrow>
               (case (if assignedUser t \<noteq> []
                      then (case User_findById (users s) (assignedUser t) of
                              Inl e \<Rightarrow> Inl e
                            | Inr u \<Rightarrow>
                                let userName =
                                      (case u of
                                         Some u' \<Rightarrow> u_name u'
                                       | None \<Rightarrow>
                                           if assignedUserName t \<noteq> [] then assignedUserName t
                                           else ''unassigned'')
                                in if assignedUserName t \<noteq> userName
                                   then (case Task_save (t\<lparr>assignedUserName := userName\<rparr>) ts1 of
                                           Inl e \<Rightarrow> Inl e
                                         | Inr ts2 \<Rightarrow> Inr (t\<lparr>assignedUserName := userName\<rparr>, ts2))
                                   else Inr (t, ts1))
                      else Inr (t, ts1)) of
                  Inl e \<Rightarrow> (tasks_write_catch e, s\<lparr>tasks := ts1\<rparr>)
                | Inr (t', ts2) \<Rightarrow>
                    (case syncUserPendingForTask t' None (users s) of
                       (Some e, us) \<Rightarrow> (tasks_write_catch e, \<lparr>tasks = ts2, users = us\<rparr>)
                     | (None, us) \<Rightarrow> (created (TaskDoc None t'), \<lparr>tasks = ts2, users = us\<rparr>))))"

text \<open>GET /api/tasks/:id\<close>

definition tasks_get_one :: "string \<Rightarrow> projection jparam \<Rightarrow> store \<Rightarrow> response" where
  "tasks_get_one i sel s =
     (if \<not> isValidId i then notFound ''Task not found''
      else if isMalformed sel then tasks_one_catch SyntaxError
      else
        (case selectOf sel of
           Inl e \<Rightarrow> tasks_one_catch e
         | Inr p \<Rightarrow>
             (case Task_findById (tasks s) i of
                Inl e \<Rightarrow> tasks_one_catch e
              | Inr None \<Rightarrow> notFound ''Task not found''
              | Inr (Some doc) \<Rightarrow> ok (TaskDoc p doc) ''OK'')))"

text \<open>PUT /api/tasks/:id\<close>

definition tasks_put :: "string \<Rightarrow> task_body \<Rightarrow> store \<Rightarrow> response \<times> store" where
  "tasks_put i b s =
     (if \<not> isValidId i then (notFound ''Task not found'', s)
      else if \<not> truthy (b_name b) \<or> b_deadline b = None \<or> b_deadline b = Some 0
      then (bad ''Task name and deadline are required'', s)
      else
        (case Task_findById (tasks s) i of
           Inl e \<Rightarrow> (tasks_write_catch e, s)
         | Inr None \<Rightarrow> (notFound ''Task not found'', s)
         | Inr (Some before) \<Rightarrow>
             let prevAssignedUser = assignedUser before;
                 b1 = before\<lparr>t_name := trim (orElse (b_name b) []),
                             description := trim (orElse (b_description b) []),
                             deadline := orElse (b_deadline b) 0,
                             completed := orElse (b_completed b) False,
                             assignedUser := trim (orElse (b_assignedUser b) [])\<rparr>
             in (case (if assignedUser b1 \<noteq> []
                      then (case User_findById (users s) (assignedUser b1) of
                              Inl e \<Rightarrow> Inl e
                            | Inr u \<Rightarrow>
                                Inr (b1\<lparr>assignedUserName :=
                                          trim (orElse (b_assignedUserName b)
                                                  (case u of
                                                     Some u' \<Rightarrow> u_name u'
                                                   | None \<Rightarrow> ''unassigned''))\<rparr>))
                      else Inr (b1\<lparr>assignedUserName := ''unassigned''\<rparr>)) of
                  Inl e \<Rightarrow> (tasks_write_catch e, s)
                | Inr b2 \<Rightarrow>
                    (case Task_save b2 (tasks s) of
                       Inl e \<Rightarrow> (tasks_write_catch e, s)
                     | Inr ts1 \<Rightarrow>
                         (case syncUserPendingForTask b2 (Some prevAssignedUser) (users s) of
                            (Some e, us) \<Rightarrow> (tasks_write_catch e, \<lparr>tasks = ts1, users = us\<rparr>)
                          | (None, us) \<Rightarrow> (ok (TaskDoc None b2) ''OK'', \<lparr>tasks = ts1, users = us\<rparr>))))))"

text \<open>DELETE /api/tasks/:id; its \<open>catch\<close> block answers every error with 500.\<close>

definition tasks_delete :: "string \<Rightarrow> store \<Rightarrow> response \<times> store" where
  "tasks_delete i s =
     (if \<not> isValidId i then (notFound ''Task not found'', s)
      else
        (case Task_findById (tasks s) i of
           Inl e \<Rightarrow> (fail, s)
         | Inr None \<Rightarrow> (notFound ''Task not found'', s)
         | Inr (Some task) \<Rightarrow>
             (case (if assignedUser task \<noteq> []
                    then User_pullPending (assignedUser task) (t_id task) (users s)
                    else Inr (users s)) of
                Inl e \<Rightarrow> (fail, s)
              | Inr us \<Rightarrow> (noContent, \<lparr>tasks = Task_deleteOne task (tasks s), users = us\<rparr>))))"


section \<open>The older copy of the task routes (\<open>src/unnamed/part_001\<close>)\<close>

text \<open>
  The repository holds a second, older copy of \<open>routes/tasks.js\<close>. Its
  synchronizer and its POST handler are the ones above. Its other handlers
  differ: the list handler sorts only when asked to, and the three
  single-resource handlers do not test the identifier, so that a malformed one
  reaches \<open>Task.findById\<close>, whose CastError the \<open>catch\<close> block answers.
\<close>

text \<open>GET /api/tasks\<close>

definition tasks_get_part001 :: "task list_query \<Rightarrow> store \<Rightarrow> response" where
  "tasks_get_part001 q s =
     (if isMalformed (q_where q) \<or> isMalformed (q_sort q) \<or> isMalformed (q_select q)
      then tasks_list_catch SyntaxError
      else
        let skip = toInt (q_skip q) 0;
            limit = (case q_limit q of None \<Rightarrow> Some 100 | Some v \<Rightarrow> toInt (Some v) 0)
        in if asBool (q_count q)
           then (case findWhere (q_where q) (tasks s) of
                   Inl e \<Rightarrow> tasks_list_catch e
                 | Inr docs \<Rightarrow> ok (Count (length docs)) ''OK'')
           else
             (case findWhere (q_where q) (tasks s) of
                Inl e \<Rightarrow> tasks_list_catch e
              | Inr found \<Rightarrow>
                  (case (case q_sort q of
                           JValue f \<Rightarrow> Inr (f found)
                         | JRejected \<Rightarrow> Inl StoreError
                         | _ \<Rightarrow> Inr found) of
                     Inl e \<Rightarrow> tasks_list_catch e
                   | Inr ordered \<Rightarrow>
                       (case selectOf (q_select q) of
                          Inl e \<Rightarrow> tasks_list_catch e
                        | Inr sel \<Rightarrow>
                            (case applySkip skip ordered of
                               Inl e \<Rightarrow> tasks_list_catch e
                             | Inr skipped \<Rightarrow>
                                 (case applyLimit limit skipped of
                                    Inl e \<Rightarrow> tasks_list_catch e
                                  | Inr docs \<Rightarrow> ok (TaskDocs sel docs) ''OK''))))))"

text \<open>GET /api/tasks/:id\<close>

definition tasks_get_one_part001 :: "string \<Rightarrow> projection jparam \<Rightarrow> store \<Rightarrow> response" where
  "tasks_get_one_part001 i sel s =
     (if isMalformed sel then tasks_one_catch SyntaxError
      else
        (case selectOf sel of
           Inl e \<Rightarrow> tasks_one_catch e
         | Inr p \<Rightarrow>
             (case Task_findById (tasks s) i of
                Inl e \<Rightarrow> tasks_one_catch e
              | Inr None \<Rightarrow> notFound ''Task not found''
              | Inr (Some doc) \<Rightarrow> ok (TaskDoc p doc) ''OK'')))"

text \<open>PUT /api/tasks/:id\<close>

definition tasks_put_part001 :: "string \<Rightarrow> task_body \<Rightarrow> store \<Rightarrow> response \<times> store" where
  "tasks_put_part001 i b s =
     (if \<not> truthy (b_name b) \<or> b_deadline b = None \<or> b_deadline b = Some 0
      then (bad ''Task name and deadline are required'', s)
      else
        (case Task_findById (tasks s) i of
           Inl e \<Rightarrow> (tasks_write_catch e, s)
         | Inr None \<Rightarrow> (notFound ''Task not found'', s)
         | Inr (Some before) \<Rightarrow>
             let prevAssignedUser = assignedUser before;
                 b1 = before\<lparr>t_name := trim (orElse (b_name b) []),
                             description := trim (orElse (b_description b) []),
                             deadline := orElse (b_deadline b) 0,
                             completed := orElse (b_completed b) False,
                             assignedUser := trim (orElse (b_assignedUser b) [])\<rparr>
             in (case (if assignedUser b1 \<noteq> []
                      then (case User_findById (users s) (assignedUser b1) of
                              Inl e \<Rightarrow> Inl e
                            | Inr u \<Rightarrow>
                                Inr (b1\<lparr>assignedUserName :=
                                          trim (orElse (b_assignedUserName b)
                                                  (case u of
                                                     Some u' \<Rightarrow> u_name u'
                                                   | None \<Rightarrow> ''unassigned''))\<rparr>))
                      else Inr (b1\<lparr>assignedUserName := ''unassigned''\<rparr>)) of
                  Inl e \<Rightarrow> (tasks_write_catch e, s)
                | Inr b2 \<Rightarrow>
                    (case Task_save b2 (tasks s) of
                       Inl e \<Rightarrow> (tasks_write_catch e, s)
                     | Inr ts1 \<Rightarrow>
                         (case syncUserPendingForTask b2 (Some prevAssignedUser) (users s) of
                            (Some e, us) \<Rightarrow> (tasks_write_catch e, \<lparr>tasks = ts1, users = us\<rparr>)
                          | (None, us) \<Rightarrow> (ok (TaskDoc None b2) ''OK'', \<lparr>tasks = ts1, users = us\<rparr>))))))"

text \<open>DELETE /api/tasks/:id\<close>

definition tasks_delete_part001 :: "string \<Rightarrow> store \<Rightarrow> response \<times> store" where
  "tasks_delete_part001 i s =
     (case Task_findById (tasks s) i of
        Inl e \<Rightarrow> (fail, s)
      | Inr None \<Rightarrow> (notFound ''Task not found'', s)
      | Inr (Some task) \<Rightarrow>
          (case (if assignedUser task \<noteq> []
                 then User_pullPending (assignedUser task) (t_id task) (users s)
                 else Inr (users s)) of
             Inl e \<Rightarrow> (fail, s)
           | Inr us \<Rightarrow> (noContent, \<lparr>tasks = Task_deleteOne task (tasks s), users = us\<rparr>)))"


section \<open>User routes (\<open>routes/users.js\<close>)\<close>

definition users_list_catch :: "exn \<Rightarrow> response" where
  "users_list_catch e = (if e = SyntaxError then bad ''Invalid JSON in query'' else fail)"

definition users_one_catch :: "exn \<Rightarrow> response" where
  "users_one_catch e = (if e = SyntaxError then bad ''Invalid JSON in select'' else fail)"

definition users_post_catch :: "exn \<Rightarrow> response" where
  "users_post_catch e =
     (if e = ValidationError then bad ''User validation failed''
      else if e = DuplicateKey then bad ''A user with this email already exists''
      else fail)"

definition users_put_catch :: "exn \<Rightarrow> response" where
  "users_put_catch e = (if e = ValidationError then bad ''User validation failed'' else fail)"

text \<open>GET /api/users\<close>

definition users_get :: "user list_query \<Rightarrow> store \<Rightarrow> response" where
  "users_get q s =
     (if isMalformed (q_where q) \<or> isMalformed (q_sort q) \<or> isMalformed (q_select q)
      then users_list_catch SyntaxError
      else
        let skip = toInt (q_skip q) 0;
            limit = (case q_limit q of None \<Rightarrow> None | Some v \<Rightarrow> Some (toInt (Some v) 0))
        in if asBool (q_count q)
           then (case findWhere (q_where q) (users s) of
                   Inl e \<Rightarrow> users_list_catch e
                 | Inr docs \<Rightarrow> ok (Count (length docs)) ''OK'')
           else
             (case findWhere (q_where q) (users s) of
                Inl e \<Rightarrow> users_list_catch e
              | Inr found \<Rightarrow>
                  (case (case q_sort q of
                           JValue f \<Rightarrow> Inr (f found)
                         | JRejected \<Rightarrow> Inl StoreError
                         | _ \<Rightarrow> Inr found) of
                     Inl e \<Rightarrow> users_list_catch e
                   | Inr ordered \<Rightarrow>
                       (case selectOf (q_select q) of
                          Inl e \<Rightarrow> users_list_catch e
                        | Inr sel \<Rightarrow>
                            (case applySkip skip ordered of
                               Inl e \<Rightarrow> users_list_catch e
                             | Inr skipped \<Rightarrow>
                                 (case (case limit of
                                          None \<Rightarrow> Inr skipped
                                        | Some l \<Rightarrow> applyLimit l skipped) of
                                    Inl e \<Rightarrow> users_list_catch e
                                  | Inr docs \<Rightarrow> ok (UserDocs sel docs) ''OK''))))))"

text \<open>POST /api/users\<close>

definition users_post :: "string \<Rightarrow> int \<Rightarrow> user_body \<Rightarrow> store \<Rightarrow> response \<times> store" where
  "users_post newId now b s =
     (if \<not> truthy (ub_name b) \<or> \<not> truthy (ub_email b)
      then (bad ''Name and email are required'', s)
      else
        (case User_findByEmail (users s) (toLowerCase (orElse (ub_email b) [])) of
           Some dup \<Rightarrow> (bad ''A user with this email already exists'', s)
         | None \<Rightarrow>
             let user = \<lparr>u_id = newId,
                         u_name = trim (orElse (ub_name b) []),
                         email = emailSetters (orElse (ub_email b) []),
                         pendingTasks = orElse (ub_pendingTasks b) [],
                         u_dateCreated = now\<rparr>
             in (case User_create user (users s) of
                   Inl e \<Rightarrow> (users_post_catch e, s)
                 | Inr us1 \<Rightarrow>
                     if pendingTasks user \<noteq> []
                     then (case Task_assignMany (pendingTasks user) (u_id user) (u_name user) (tasks s) of
                             Inl e \<Rightarrow> (users_post_catch e, \<lparr>tasks = tasks s, users = us1\<rparr>)
                           | Inr ts1 \<Rightarrow> (created (UserDoc None user), \<lparr>tasks = ts1, users = us1\<rparr>))
                     else (created (UserDoc None user), \<lparr>tasks = tasks s, users = us1\<rparr>))))"

text \<open>GET /api/users/:id\<close>

definition users_get_one :: "string \<Rightarrow> projection jparam \<Rightarrow> store \<Rightarrow> response" where
  "users_get_one i sel s =
     (if \<not> isValidId i then notFound ''User not found''
      else if isMalformed sel then users_one_catch SyntaxError
      else
        (case selectOf sel of
           Inl e \<Rightarrow> users_one_catch e
         | Inr p \<Rightarrow>
             (case User_findById (users s) i of
                Inl e \<Rightarrow> users_one_catch e
              | Inr None \<Rightarrow> notFound ''User not found''
              | Inr (Some doc) \<Rightarrow> ok (UserDoc p doc) ''OK'')))"

text \<open>PUT /api/users/:id\<close>

definition users_put :: "string \<Rightarrow> user_body \<Rightarrow> store \<Rightarrow> response \<times> store" where
  "users_put i b s =
     (if \<not> isValidId i then (notFound ''User not found'', s)
      else if \<not> truthy (ub_name b) \<or> \<not> truthy (ub_email b)
      then (bad ''Name and email are required'', s)
      else
        (case User_findByEmailExcept (users s) (toLowerCase (orElse (ub_email b) [])) i of
           Inl e \<Rightarrow> (users_put_catch e, s)
         | Inr (Some dup) \<Rightarrow> (bad ''A user with this email already exists'', s)
         | Inr None \<Rightarrow>
             (case User_findById (users s) i of
                Inl e \<Rightarrow> (users_put_catch e, s)
              | Inr None \<Rightarrow> (notFound ''User not found'', s)
              | Inr (Some before) \<Rightarrow>
                  let user = before\<lparr>u_name := trim (orElse (ub_name b) []),
                                     email := emailSetters (orElse (ub_email b) []),
                                     pendingTasks := orElse (ub_pendingTasks b) []\<rparr>
                  in (case User_save user (users s) of
                        Inl e \<Rightarrow> (users_put_catch e, s)
                      | Inr us1 \<Rightarrow>
                          (case Task_assignMany (pendingTasks user) (u_id user) (u_name user) (tasks s) of
                             Inl e \<Rightarrow> (users_put_catch e, \<lparr>tasks = tasks s, users = us1\<rparr>)
                           | Inr ts1 \<Rightarrow>
                               let toUnassign = Task_pendingOf (u_id user) ts1;
                                   dropIds = filter (\<lambda>tid. tid \<notin> set (pendingTasks user))
                                               (map t_id toUnassign)
                               in if dropIds \<noteq> []
                                  then (case Task_unassignIds dropIds ts1 of
                                          Inl e \<Rightarrow> (users_put_catch e, \<lparr>tasks = ts1, users = us1\<rparr>)
                                        | Inr ts2 \<Rightarrow>
                                            (ok (UserDoc None user) ''OK'', \<lparr>tasks = ts2, users = us1\<rparr>))
                                  else (ok (UserDoc None user) ''OK'', \<lparr>tasks = ts1, users = us1\<rparr>))))))"

text \<open>DELETE /api/users/:id; the tasks are matched on \<open>String(id)\<close>, the identifier as the request wrote it.\<close>

definition users_delete :: "string \<Rightarrow> store \<Rightarrow> response \<times> store" where
  "users_delete i s =
     (if \<not> isValidId i then (notFound ''User not found'', s)
      else
        (case User_findById (users s) i of
           Inl e \<Rightarrow> (fail, s)
         | Inr None \<Rightarrow> (notFound ''User not found'', s)
         | Inr (Some user) \<Rightarrow>
             (noContent, \<lparr>tasks = Task_unassignUser i (tasks s),
                          users = User_deleteOne user (users s)\<rparr>)))"


section \<open>Well-formed stores, the assignment invariant, sequences of requests\<close>

text \<open>
  An identifier in the form the store prints it, which is the form every
  \<open>_id\<close> of a stored document has.
\<close>

definition canonicalId :: "string \<Rightarrow> bool" where
  "canonicalId i \<longleftrightarrow> castObjectId i = Some i"

definition task_ids_wf :: "task list \<Rightarrow> bool" where
  "task_ids_wf ts \<longleftrightarrow> distinct (map t_id ts) \<and> (\<forall>t\<in>set ts. canonicalId (t_id t))"

definition user_ids_wf :: "user list \<Rightarrow> bool" where
  "user_ids_wf us \<longleftrightarrow> distinct (map u_id us) \<and> (\<forall>u\<in>set us. canonicalId (u_id u))"

text \<open>Stored emails have passed the schema's setters.\<close>

definition emails_wf :: "user list \<Rightarrow> bool" where
  "emails_wf us \<longleftrightarrow> (\<forall>u\<in>set us. emailSetters (email u) = email u)"

text \<open>
  The invariant of the data model, in the words of the specification: a
  pending task assigned to a user is in that user's \<open>pendingTasks\<close>, and a
  task that is completed or unassigned is in nobody's.
\<close>

definition assignment_invariant :: "store \<Rightarrow> bool" where
  "assignment_invariant s \<longleftrightarrow>
     (\<forall>t\<in>set (tasks s). \<forall>u\<in>set (users s).
        (\<not> completed t \<and> assignedUser t = u_id u \<longrightarrow> t_id t \<in> set (pendingTasks u)) \<and>
        (completed t \<or> assignedUser t = [] \<longrightarrow> t_id t \<notin> set (pendingTasks u)))"

text \<open>
  The mutating requests of the API; a create request comes with the identifier
  and the creation time the new document is given.
\<close>

datatype request =
    PostTask string int task_body
  | PutTask string task_body
  | DeleteTask string
  | PostUser string int user_body
  | PutUser string user_body
  | DeleteUser string

fun handle :: "request \<Rightarrow> store \<Rightarrow> store" where
  "handle (PostTask newId now b) s = snd (tasks_post newId now b s)"
| "handle (PutTask i b) s = snd (tasks_put i b s)"
| "handle (DeleteTask i) s = snd (tasks_delete i s)"
| "handle (PostUser newId now b) s = snd (users_post newId now b s)"
| "handle (PutUser i b) s = snd (users_put i b s)"
| "handle (DeleteUser i) s = snd (users_delete i s)"

text \<open>
  A generated identifier is new: in printed form, not the identifier of a
  stored document of its kind, and not yet referred to by the other store.
\<close>

fun fresh :: "request \<Rightarrow> store \<Rightarrow> bool" where
  "fresh (PostTask newId now b) s \<longleftrightarrow>
     canonicalId newId \<and> newId \<notin> set (map t_id (tasks s)) \<and>
     (\<forall>u\<in>set (users s). \<forall>x\<in>set (pendingTasks u). castObjectId x \<noteq> Some newId)"
| "fresh (PostUser newId now b) s \<longleftrightarrow>
     canonicalId newId \<and> newId \<notin> set (map u_id (users s)) \<and>
     (\<forall>t\<in>set (tasks s). castObjectId (assignedUser t) \<noteq> Some newId)"
| "fresh _ s \<longleftrightarrow> True"

text \<open>Running a sequence of requests, each to completion, while a guard admits them.\<close>

fun run :: "(request \<Rightarrow> store \<Rightarrow> bool) \<Rightarrow> request list \<Rightarrow> store \<Rightarrow> store option" where
  "run G [] s = Some s"
| "run G (r # rs) s = (if G r s then run G rs (handle r s) else None)"

text \<open>
  Requests that keep to the assignments the stores already hold: a task body
  names its assignee, if any, in printed form; the \<open>pendingTasks\<close> of a user
  body lists only stored pending tasks that no other stored user is assigned.
\<close>

definition printedRef :: "string \<Rightarrow> bool" where
  "printedRef a \<longleftrightarrow> \<not> isValidId a \<or> canonicalId a"

definition claimable :: "store \<Rightarrow> string option \<Rightarrow> string \<Rightarrow> bool" where
  "claimable s owner x \<longleftrightarrow>
     (\<exists>t\<in>set (tasks s). t_id t = x \<and> \<not> completed t \<and>
        (\<forall>u\<in>set (users s). castObjectId (assignedUser t) = Some (u_id u) \<longrightarrow> owner = Some (u_id u)))"

fun disciplined :: "request \<Rightarrow> store \<Rightarrow> bool" where
  "disciplined (PostTask newId now b) s \<longleftrightarrow> printedRef (trim (orElse (b_assignedUser b) []))"
| "disciplined (PutTask i b) s \<longleftrightarrow> printedRef (trim (orElse (b_assignedUser b) []))"
| "disciplined (DeleteTask i) s \<longleftrightarrow> True"
| "disciplined (PostUser newId now b) s \<longleftrightarrow>
     (\<forall>x\<in>set (orElse (ub_pendingTasks b) []). claimable s None x)"
| "disciplined (PutUser i b) s \<longleftrightarrow>
     (\<forall>x\<in>set (orElse (ub_pendingTasks b) []). claimable s (castObjectId i) x)"
| "disciplined (DeleteUser i) s \<longleftrightarrow> True"

text \<open>
  The consistency that such requests maintain: identifiers are well formed,
  every entry of a \<open>pendingTasks\<close> list is a stored pending task assigned to
  that user, and every pending task assigned to a stored user is in that
  user's list.
\<close>

definition consistent :: "store \<Rightarrow> bool" where
  "consistent s \<longleftrightarrow>
     task_ids_wf (tasks s) \<and> user_ids_wf (users s) \<and>
     (\<forall>t\<in>set (tasks s). printedRef (assignedUser t)) \<and>
     (\<forall>u\<in>set (users s). \<forall>x\<in>set (pendingTasks u).
        \<exists>t\<in>set (tasks s). t_id t = x \<and> \<not> completed t \<and> castObjectId (assignedUser t) = Some (u_id u)) \<and>
     (\<forall>t\<in>set (tasks s). \<forall>u\<in>set (users s).
        \<not> completed t \<and> castObjectId (assignedUser t) = Some (u_id u) \<longrightarrow> t_id t \<in> set (pendingTasks u))"


section \<open>A small store to test on\<close>

definition ann_id :: string where "ann_id = ''64a000000000000000000001''"
definition bob_id :: string where "bob_id = ''64a000000000000000000002''"
definition cat_id :: string where "cat_id = ''64a000000000000000000003''"
definition task_a :: string where "task_a = ''64b000000000000000000001''"
definition task_b :: string where "task_b = ''64b000000000000000000002''"
definition task_c :: string where "task_c = ''64b000000000000000000003''"
definition task_d :: string where "task_d = ''64b000000000000000000004''"

definition ann :: user where
  "ann = \<lparr>u_id = ann_id, u_name = ''Ann'', email = ''ann@x.org'', pendingTasks = [task_a],
          u_dateCreated = 1\<rparr>"

definition bob :: user where
  "bob = \<lparr>u_id = bob_id, u_name = ''Bob'', email = ''bob@x.org'', pendingTasks = [task_c],
          u_dateCreated = 2\<rparr>"

definition demo_store :: store where
  "demo_store =
     \<lparr>tasks =
        [\<lparr>t_id = task_a, t_name = ''write'', description = [], deadline = 10, completed = False,
          assignedUser = ann_id, assignedUserName = ''Ann'', t_dateCreated = 3\<rparr>,
         \<lparr>t_id = task_b, t_name = ''review'', description = [], deadline = 20, completed = True,
          assignedUser = ann_id, assignedUserName = ''Ann'', t_dateCreated = 4\<rparr>,
         \<lparr>t_id = task_c, t_name = ''ship'', description = [], deadline = 30, completed = False,
          assignedUser = bob_id, assignedUserName = ''Bob'', t_dateCreated = 5\<rparr>],
      users = [ann, bob]\<rparr>"

text \<open>Request bodies for that store, and a store in which a user lists a task twice.\<close>

definition ann_body :: user_body where
  "ann_body = \<lparr>ub_name = Some ''Ann'', ub_email = Some ''ann@x.org'', ub_pendingTasks = None\<rparr>"

definition write_body :: task_body where
  "write_body = \<lparr>b_name = Some ''write'', b_description = None, b_deadline = Some 10,
                  b_completed = None, b_assignedUser = Some ann_id, b_assignedUserName = None\<rparr>"

definition move_body :: task_body where
  "move_body = write_body\<lparr>b_assignedUser := Some bob_id\<rparr>"

definition listed_twice :: "request list" where
  "listed_twice =
     [PostUser ann_id 1 ann_body,
      PostTask task_a 2 write_body,
      PutUser ann_id (ann_body\<lparr>ub_pendingTasks := Some [task_a, task_a]\<rparr>)]"

definition twice_store :: store where
  "twice_store =
     \<lparr>tasks =
        [\<lparr>t_id = task_a, t_name = ''write'', description = [], deadline = 10, completed = False,
          assignedUser = ann_id, assignedUserName = ''Ann'', t_dateCreated = 2\<rparr>],
      users =
        [\<lparr>u_id = ann_id, u_name = ''Ann'', email = ''ann@x.org'', pendingTasks = [task_a, task_a],
          u_dateCreated = 1\<rparr>]\<rparr>"

text \<open>A list request without any query parameter.\<close>

definition plain_query :: "'a list_query" where
  "plain_query = \<lparr>q_where = JAbsent, q_sort = JAbsent, q_select = JAbsent,
                   q_skip = None, q_limit = None, q_count = None\<rparr>"

text \<open>Two requests after which a user lists a completed task.\<close>

definition done_body :: task_body where
  "done_body = \<lparr>b_name = Some ''write'', b_description = None, b_deadline = Some 10,
                 b_completed = Some True, b_assignedUser = None, b_assignedUserName = None\<rparr>"

definition completed_listed :: "request list" where
  "completed_listed =
     [PostTask task_a 1 done_body,
      PostUser ann_id 2 (ann_body\<lparr>ub_pendingTasks := Some [task_a]\<rparr>)]"

definition listed_store :: store where
  "listed_store =
     \<lparr>tasks =
        [\<lparr>t_id = task_a, t_name = ''write'', description = [], deadline = 10, completed = True,
          assignedUser = [], assignedUserName = ''unassigned'', t_dateCreated = 1\<rparr>],
      users =
        [\<lparr>u_id = ann_id, u_name = ''Ann'', email = ''ann@x.org'', pendingTasks = [task_a],
          u_dateCreated = 2\<rparr>]\<rparr>"

text \<open>
  Ann's identifier and the identifier of the third task as a client may also
  write them, with upper-case digits, and a body for Bob that lists the task
  in that spelling.
\<close>

definition ann_id_upper :: string where "ann_id_upper = ''64A000000000000000000001''"
definition task_c_upper :: string where "task_c_upper = ''64B000000000000000000003''"

definition bob_body :: user_body where
  "bob_body = \<lparr>ub_name = Some ''Bob'', ub_email = Some ''bob@x.org'',
                ub_pendingTasks = Some [task_c_upper]\<rparr>"


section \<open>Properties\<close>

subsection \<open>Strings, lists, identifiers\<close>

lemma lowerChar_idem: "lowerChar (lowerChar c) = lowerChar c"
  by (auto simp: lowerChar_def Let_def)

lemma toLowerCase_idem: "toLowerCase (toLowerCase x) = toLowerCase x"
  by (simp add: toLowerCase_def lowerChar_idem)

lemma find_Some_ex: "(\<exists>y. find P xs = Some y) \<longleftrightarrow> (\<exists>x\<in>set xs. P x)"
  by (induction xs) auto

lemma find_distinct_key:
  "x \<in> set xs \<Longrightarrow> distinct (map key xs) \<Longrightarrow> find (\<lambda>y. key y = key x) xs = Some x"
  by (induction xs) (auto simp: image_iff)

lemma deleteFirst_distinct_key:
  "distinct (map key xs) \<Longrightarrow> deleteFirst (\<lambda>y. key y = k) xs = filter (\<lambda>y. key y \<noteq> k) xs"
proof (induction xs)
  case Nil
  then show ?case by simp
next
  case (Cons a xs)
  then have "\<forall>y\<in>set xs. key y \<noteq> key a" by (auto simp: image_iff)
  then have "filter (\<lambda>y. key y \<noteq> key a) xs = xs" by (induction xs) auto
  with Cons show ?case by auto
qed

lemma canonicalId_valid: "canonicalId i \<Longrightarrow> isValidId i"
  by (auto simp: canonicalId_def castObjectId_def split: if_splits)

lemma castAll_canonical: "\<forall>x\<in>set xs. canonicalId x \<Longrightarrow> castAll xs = Some xs"
  by (induction xs) (simp_all add: canonicalId_def)

lemma demo_ids_canonical:
  "canonicalId ann_id" "canonicalId bob_id" "canonicalId cat_id"
  "canonicalId task_a" "canonicalId task_b" "canonicalId task_c" "canonicalId task_d"
  by (simp_all add: canonicalId_def castObjectId_def isValidId_def isHexDigit_def
      toLowerCase_def lowerChar_def ann_id_def bob_id_def cat_id_def
      task_a_def task_b_def task_c_def task_d_def)

lemma demo_ids_distinct: "distinct [ann_id, bob_id, cat_id, task_a, task_b, task_c, task_d]"
  by (simp add: ann_id_def bob_id_def cat_id_def task_a_def task_b_def task_c_def task_d_def)

lemma demo_store_wf:
  "task_ids_wf (tasks demo_store)" "user_ids_wf (users demo_store)" "emails_wf (users demo_store)"
  using demo_ids_canonical demo_ids_distinct
  by (simp_all add: task_ids_wf_def user_ids_wf_def emails_wf_def demo_store_def ann_def bob_def
      emailSetters_def trim_def toLowerCase_def lowerChar_def isSpace_def)


subsection \<open>Store operations on well-formed stores\<close>

lemma User_findById_member:
  assumes "user_ids_wf us" "u \<in> set us"
  shows "User_findById us (u_id u) = Inr (Some u)"
  using assms
  by (simp add: User_findById_def user_ids_wf_def canonicalId_def find_distinct_key)

lemma users_delete_eq:
  assumes "user_ids_wf (users s)" "u \<in> set (users s)"
  shows "users_delete (u_id u) s =
     (noContent, \<lparr>tasks = Task_unassignUser (u_id u) (tasks s),
                   users = filter (\<lambda>x. u_id x \<noteq> u_id u) (users s)\<rparr>)"
proof -
  from assms have valid: "isValidId (u_id u)"
    by (simp add: user_ids_wf_def canonicalId_valid)
  from assms have "distinct (map u_id (users s))" by (simp add: user_ids_wf_def)
  then have "User_deleteOne u (users s) = filter (\<lambda>x. u_id x \<noteq> u_id u) (users s)"
    by (simp add: User_deleteOne_def deleteFirst_distinct_key)
  with valid User_findById_member [OF assms] show ?thesis
    by (simp add: users_delete_def)
qed

lemma Task_assignMany_completed:
  "Task_assignMany ids uid nm ts = Inr ts' \<Longrightarrow>
     length ts' = length ts \<and> (\<forall>k<length ts. completed (ts ! k) \<longrightarrow> ts' ! k = ts ! k)
     \<and> map t_id ts' = map t_id ts"
  by (auto simp: Task_assignMany_def updateAll_def split: option.splits)

lemma Task_unassignUser_completed:
  "length (Task_unassignUser uid ts) = length ts \<and>
   (\<forall>k<length ts. completed (ts ! k) \<longrightarrow> Task_unassignUser uid ts ! k = ts ! k)"
  by (auto simp: Task_unassignUser_def updateAll_def)

lemma task_ids_wf_cong: "map t_id ts' = map t_id ts \<Longrightarrow> task_ids_wf ts' = task_ids_wf ts"
proof -
  assume eq: "map t_id ts' = map t_id ts"
  then have "t_id ` set ts' = t_id ` set ts" by (metis set_map)
  then have "(\<forall>t\<in>set ts'. canonicalId (t_id t)) = (\<forall>t\<in>set ts. canonicalId (t_id t))"
    by (metis (no_types, lifting) image_iff)
  with eq show ?thesis by (simp add: task_ids_wf_def)
qed

lemma Task_unassignIds_completed:
  assumes wf: "task_ids_wf ts"
    and sub: "set ids \<subseteq> t_id ` {t \<in> set ts. \<not> completed t}"
    and res: "Task_unassignIds ids ts = Inr ts'"
  shows "length ts' = length ts \<and> (\<forall>k<length ts. completed (ts ! k) \<longrightarrow> ts' ! k = ts ! k)"
proof -
  from wf sub have "\<forall>x\<in>set ids. canonicalId x"
    by (auto simp: task_ids_wf_def)
  then have cast: "castAll ids = Some ids" by (rule castAll_canonical)
  from wf have inj: "inj_on t_id (set ts)"
    by (simp add: task_ids_wf_def distinct_map)
  have "\<forall>t\<in>set ts. t_id t \<in> set ids \<longrightarrow> \<not> completed t"
  proof (intro ballI impI)
    fix t assume t: "t \<in> set ts" and "t_id t \<in> set ids"
    with sub obtain t' where "t' \<in> set ts" "\<not> completed t'" "t_id t' = t_id t" by auto
    with inj t have "t' = t" by (auto dest: inj_onD)
    with \<open>\<not> completed t'\<close> show "\<not> completed t" by simp
  qed
  with res cast show ?thesis
    by (auto simp: Task_unassignIds_def updateAll_def)
qed


subsection \<open>Malformed identifiers\<close>

text \<open>
  The six single-resource handlers of \<open>routes/tasks.js\<close> and
  \<open>routes/users.js\<close> test the identifier before anything else: one that is
  not a syntactically valid store identifier is answered with 404, whatever
  the rest of the request holds, and the two stores are left as they were.
\<close>

lemma invalid_id_not_found:
  assumes "\<not> isValidId i"
  shows "tasks_get_one i sel s = notFound ''Task not found''
       \<and> tasks_put i tb s = (notFound ''Task not found'', s)
       \<and> tasks_delete i s = (notFound ''Task not found'', s)
       \<and> users_get_one i sel s = notFound ''User not found''
       \<and> users_put i ub s = (notFound ''User not found'', s)
       \<and> users_delete i s = (notFound ''User not found'', s)
       \<and> status (notFound ''Task not found'') = 404
       \<and> status (notFound ''User not found'') = 404"
  using assms
  by (simp add: tasks_get_one_def tasks_put_def tasks_delete_def
      users_get_one_def users_put_def users_delete_def notFound_def)

text \<open>
  Claim C6 says that a single-resource GET, PUT or DELETE on /tasks/{id} with
  an identifier that is not syntactically valid is answered with 404, never
  with 500. The older copy of the task routes does not do so: its three
  handlers have no identifier test, the identifier \<open>42\<close> reaches
  \<open>Task.findById\<close>, and the CastError is answered with 500, where the
  handler of \<open>routes/tasks.js\<close> answers 404.
\<close>

theorem malformed_id_server_error:
  "tasks_get_one_part001 ''42'' JAbsent demo_store = fail
   \<and> tasks_put_part001 ''42'' write_body demo_store = (fail, demo_store)
   \<and> tasks_delete_part001 ''42'' demo_store = (fail, demo_store)
   \<and> status fail = 500
   \<and> tasks_get_one ''42'' JAbsent demo_store = notFound ''Task not found''
   \<and> status (notFound ''Task not found'') = 404"
  by code_simp

theorem malformed_id_server_error_witness:
  "status (tasks_get_one_part001 ''42'' JAbsent demo_store) = 500
   \<and> status (fst (tasks_put_part001 ''42'' write_body demo_store)) = 500
   \<and> status (fst (tasks_delete_part001 ''42'' demo_store)) = 500
   \<and> status (tasks_get_one ''42'' JAbsent demo_store) = 404"
  using malformed_id_server_error by simp


subsection \<open>Duplicate emails\<close>

text \<open>
  Claim C7. A POST /users whose email equals, ignoring case, the email of a
  stored user is answered with 400, and neither store changes: no user record
  is created. (Stored emails are in the form the schema writes them.)
\<close>

theorem duplicate_email_rejected:
  assumes wf: "emails_wf (users s)"
    and dup: "\<exists>u\<in>set (users s). toLowerCase (email u) = toLowerCase e"
    and body: "ub_email b = Some e"
  shows "status (fst (users_post newId now b s)) = 400 \<and> snd (users_post newId now b s) = s"
proof -
  from dup obtain u where u: "u \<in> set (users s)" and eq: "toLowerCase (email u) = toLowerCase e"
    by blast
  from wf u have norm: "emailSetters (email u) = email u"
    by (simp add: emails_wf_def)
  then have "toLowerCase (email u) = email u"
    by (metis emailSetters_def toLowerCase_idem)
  with eq have "email u = toLowerCase e" by simp
  with norm have "email u = emailSetters (toLowerCase e)" by simp
  with u have "\<exists>x\<in>set (users s). email x = emailSetters (toLowerCase e)" by blast
  then obtain d where "User_findByEmail (users s) (toLowerCase e) = Some d"
    unfolding User_findByEmail_def
    using find_Some_ex [of "\<lambda>u. email u = emailSetters (toLowerCase e)" "users s"] by blast
  then show ?thesis
    using body by (simp add: users_post_def bad_def orElse_def)
qed

theorem duplicate_email_rejected_witness:
  "emails_wf (users demo_store)
   \<and> (\<exists>u\<in>set (users demo_store). toLowerCase (email u) = toLowerCase ''Ann@X.org'')
   \<and> status (fst (users_post cat_id 9
         \<lparr>ub_name = Some ''Cat'', ub_email = Some ''Ann@X.org'', ub_pendingTasks = None\<rparr>
         demo_store)) = 400
   \<and> snd (users_post cat_id 9
         \<lparr>ub_name = Some ''Cat'', ub_email = Some ''Ann@X.org'', ub_pendingTasks = None\<rparr>
         demo_store) = demo_store"
proof -
  have dup: "\<exists>u\<in>set (users demo_store). toLowerCase (email u) = toLowerCase ''Ann@X.org''"
    by code_simp
  have body: "ub_email \<lparr>ub_name = Some ''Cat'', ub_email = Some ''Ann@X.org'',
                 ub_pendingTasks = None\<rparr> = Some ''Ann@X.org''"
    by simp
  from duplicate_email_rejected [OF demo_store_wf(3) dup body, of cat_id 9] demo_store_wf(3) dup
  show ?thesis by blast
qed


subsection \<open>Deleting a user\<close>

text \<open>
  DELETE /users/{id} for a stored user U, when the request writes the
  identifier as the store prints it: the request succeeds (204), U's record
  is removed, every task assigned to U that is not completed ends with
  \<open>assignedUser = ""\<close> and \<open>assignedUserName = "unassigned"\<close>, no task
  record is deleted, and every field of every task other than these two is
  unchanged.
\<close>

lemma users_delete_unassigns:
  assumes wf: "user_ids_wf (users s)" and u: "u \<in> set (users s)"
  shows "\<exists>s'. users_delete (u_id u) s = (noContent, s')
     \<and> u \<notin> set (users s') \<and> set (users s') = set (users s) - {u}
     \<and> length (tasks s') = length (tasks s)
     \<and> (\<forall>k<length (tasks s).
           (assignedUser (tasks s ! k) = u_id u \<and> \<not> completed (tasks s ! k)
              \<longrightarrow> assignedUser (tasks s' ! k) = [] \<and> assignedUserName (tasks s' ! k) = ''unassigned'')
         \<and> (tasks s' ! k)\<lparr>assignedUser := assignedUser (tasks s ! k),
                             assignedUserName := assignedUserName (tasks s ! k)\<rparr> = tasks s ! k)"
proof -
  let ?s' = "\<lparr>tasks = Task_unassignUser (u_id u) (tasks s),
               users = filter (\<lambda>x. u_id x \<noteq> u_id u) (users s)\<rparr>"
  from wf have dist: "distinct (map u_id (users s))" by (simp add: user_ids_wf_def)
  have same: "\<forall>x\<in>set (users s). u_id x = u_id u \<longrightarrow> x = u"
    using dist u by (meson distinct_map inj_onD)
  then have users': "set (users ?s') = set (users s) - {u}"
    by auto
  have tasks': "\<forall>k<length (tasks s).
           (assignedUser (tasks s ! k) = u_id u \<and> \<not> completed (tasks s ! k)
              \<longrightarrow> assignedUser (tasks ?s' ! k) = [] \<and> assignedUserName (tasks ?s' ! k) = ''unassigned'')
         \<and> (tasks ?s' ! k)\<lparr>assignedUser := assignedUser (tasks s ! k),
                             assignedUserName := assignedUserName (tasks s ! k)\<rparr> = tasks s ! k"
    by (simp add: Task_unassignUser_def updateAll_def)
  have len: "length (tasks ?s') = length (tasks s)"
    by (simp add: Task_unassignUser_def updateAll_def)
  from users_delete_eq [OF wf u] users' tasks' len show ?thesis
    by (intro exI [of _ ?s']) simp
qed

text \<open>
  Claim C5 says that every DELETE /users/{id} of a stored user unassigns the
  user's pending tasks. The handler finds the user by the identifier cast
  from the request, and then matches the tasks on the request's own string,
  \<open>String(id)\<close>: when the request writes Ann's identifier with upper-case
  digits, Ann is found and deleted (204) and her pending task keeps her
  identifier and name. The PUT handler, which matches on
  \<open>String(user._id)\<close>, unassigns that task for the same spelling.
\<close>

theorem users_delete_other_spelling:
  "User_findById (users demo_store) ann_id_upper = Inr (Some ann)
   \<and> assignedUser (tasks demo_store ! 0) = u_id ann
   \<and> \<not> completed (tasks demo_store ! 0)
   \<and> users_delete ann_id_upper demo_store
        = (noContent, \<lparr>tasks = tasks demo_store, users = [bob]\<rparr>)
   \<and> status (fst (users_put ann_id_upper ann_body demo_store)) = 200
   \<and> tasks (snd (users_put ann_id_upper ann_body demo_store)) ! 0
        = (tasks demo_store ! 0)\<lparr>assignedUser := [], assignedUserName := ''unassigned''\<rparr>"
  by code_simp

theorem users_delete_other_spelling_witness:
  "status (fst (users_delete ann_id_upper demo_store)) = 204
   \<and> tasks (snd (users_delete ann_id_upper demo_store)) = tasks demo_store
   \<and> assignedUser (tasks (snd (users_delete ann_id_upper demo_store)) ! 0) = u_id ann"
  using users_delete_other_spelling by (simp add: noContent_def)


subsection \<open>Completed tasks and the reverse synchronizer\<close>

text \<open>
  Claim C10. A user replace and a user delete never touch a completed task,
  whatever the request and its outcome: record for record, the completed
  tasks of the store are the same afterwards. In particular a completed task
  assigned to a deleted user keeps that user's identifier and name.
\<close>

theorem completed_tasks_untouched:
  assumes wf: "task_ids_wf (tasks s)"
  shows "length (tasks (snd (users_put i b s))) = length (tasks s)
       \<and> length (tasks (snd (users_delete j s))) = length (tasks s)
       \<and> (\<forall>k<length (tasks s). completed (tasks s ! k) \<longrightarrow>
             tasks (snd (users_put i b s)) ! k = tasks s ! k
           \<and> tasks (snd (users_delete j s)) ! k = tasks s ! k)"
proof -
  have del: "length (tasks (snd (users_delete j s))) = length (tasks s)
     \<and> (\<forall>k<length (tasks s). completed (tasks s ! k)
           \<longrightarrow> tasks (snd (users_delete j s)) ! k = tasks s ! k)"
    using Task_unassignUser_completed [of j "tasks s"]
    by (auto simp: users_delete_def split: sum.splits option.splits)
  have put: "length (tasks (snd (users_put i b s))) = length (tasks s)
     \<and> (\<forall>k<length (tasks s). completed (tasks s ! k)
           \<longrightarrow> tasks (snd (users_put i b s)) ! k = tasks s ! k)"
  proof -
    { fix ids uid nm ts1
      let ?drop = "filter (\<lambda>tid. tid \<notin> set ids) (map t_id (Task_pendingOf uid ts1))"
      assume a: "Task_assignMany ids uid nm (tasks s) = Inr ts1"
      from Task_assignMany_completed [OF a]
      have l1: "length ts1 = length (tasks s)"
        and c1: "\<forall>k<length (tasks s). completed (tasks s ! k) \<longrightarrow> ts1 ! k = tasks s ! k"
        and i1: "map t_id ts1 = map t_id (tasks s)" by auto
      from wf task_ids_wf_cong [OF i1] have wf1: "task_ids_wf ts1"
        by simp
      have sub: "set ?drop \<subseteq> t_id ` {t \<in> set ts1. \<not> completed t}"
        by (auto simp: Task_pendingOf_def)
      { fix ts2 assume u: "Task_unassignIds ?drop ts1 = Inr ts2"
        from Task_unassignIds_completed [OF wf1 sub u] l1 c1
        have "length ts2 = length (tasks s)
            \<and> (\<forall>k<length (tasks s). completed (tasks s ! k) \<longrightarrow> ts2 ! k = tasks s ! k)"
          by auto }
      note this l1 c1 }
    note step = this
    show ?thesis
      unfolding users_put_def
      by (auto simp: Let_def split: sum.splits option.splits dest: step)
  qed
  from del put show ?thesis by blast
qed

theorem completed_tasks_untouched_witness:
  "task_ids_wf (tasks demo_store)
   \<and> completed (tasks demo_store ! 1)
   \<and> tasks (snd (users_put ann_id
        \<lparr>ub_name = Some ''Ann'', ub_email = Some ''ann@x.org'', ub_pendingTasks = Some []\<rparr>
        demo_store)) ! 1 = tasks demo_store ! 1
   \<and> tasks (snd (users_delete ann_id demo_store)) ! 1 = tasks demo_store ! 1"
proof -
  have c: "completed (tasks demo_store ! 1)" and l: "1 < length (tasks demo_store)"
    by (simp_all add: demo_store_def)
  from completed_tasks_untouched [OF demo_store_wf(1), of ann_id
      "\<lparr>ub_name = Some ''Ann'', ub_email = Some ''ann@x.org'', ub_pendingTasks = Some []\<rparr>" ann_id]
  have "\<forall>k<length (tasks demo_store). completed (tasks demo_store ! k) \<longrightarrow>
             tasks (snd (users_put ann_id
        \<lparr>ub_name = Some ''Ann'', ub_email = Some ''ann@x.org'', ub_pendingTasks = Some []\<rparr>
        demo_store)) ! k = tasks demo_store ! k
           \<and> tasks (snd (users_delete ann_id demo_store)) ! k = tasks demo_store ! k"
    by blast
  from this [rule_format, OF l c] c demo_store_wf(1) show ?thesis
    by blast
qed


subsection \<open>Creating a user with a list of pending tasks\<close>

lemma castAll_set: "castAll xs = Some ys \<Longrightarrow> set ys = {i. \<exists>x\<in>set xs. castObjectId x = Some i}"
proof (induction xs arbitrary: ys)
  case Nil
  then show ?case by simp
next
  case (Cons a xs)
  then show ?case
    by (auto split: option.splits)
qed

lemma Task_assignMany_nth:
  assumes "Task_assignMany ids uid nm ts = Inr ts'"
  shows "length ts' = length ts"
    and "k < length ts \<Longrightarrow>
      ts' ! k = (if (\<exists>x\<in>set ids. castObjectId x = Some (t_id (ts ! k))) \<and> \<not> completed (ts ! k)
                 then (ts ! k)\<lparr>assignedUser := uid, assignedUserName := nm\<rparr> else ts ! k)"
  using assms
  by (auto simp: Task_assignMany_def updateAll_def castAll_set split: option.splits)

text \<open>
  Claim C9. A POST /users that is answered with 201 runs the reverse
  synchronization on create: every stored task that is not completed and whose
  identifier is in the posted \<open>pendingTasks\<close> gets the new user's identifier
  and name, whoever it was assigned to before; every task that is completed or
  not listed is left as it was (there is no drop pass); the new user is
  appended with the posted list, and no other user's record changes.
\<close>

theorem users_post_assigns_listed_tasks:
  assumes wf: "task_ids_wf (tasks s)"
    and post: "users_post newId now b s = (r, s')"
    and success: "status r = 201"
  shows "length (tasks s') = length (tasks s)
     \<and> (\<forall>k<length (tasks s).
           (t_id (tasks s ! k) \<in> set (orElse (ub_pendingTasks b) []) \<and> \<not> completed (tasks s ! k)
              \<longrightarrow> tasks s' ! k = (tasks s ! k)\<lparr>assignedUser := newId,
                                                  assignedUserName := trim (orElse (ub_name b) [])\<rparr>)
         \<and> (completed (tasks s ! k)
              \<or> (\<forall>x\<in>set (orElse (ub_pendingTasks b) []). castObjectId x \<noteq> Some (t_id (tasks s ! k)))
              \<longrightarrow> tasks s' ! k = tasks s ! k))
     \<and> users s' = users s @ [\<lparr>u_id = newId, u_name = trim (orElse (ub_name b) []),
                                email = emailSetters (orElse (ub_email b) []),
                                pendingTasks = orElse (ub_pendingTasks b) [],
                                u_dateCreated = now\<rparr>]"
proof -
  let ?L = "orElse (ub_pendingTasks b) []"
  let ?nm = "trim (orElse (ub_name b) [])"
  let ?user = "\<lparr>u_id = newId, u_name = ?nm, email = emailSetters (orElse (ub_email b) []),
                 pendingTasks = ?L, u_dateCreated = now\<rparr>"
  have canon: "\<And>k. k < length (tasks s) \<Longrightarrow> castObjectId (t_id (tasks s ! k)) = Some (t_id (tasks s ! k))"
    using wf by (simp add: task_ids_wf_def canonicalId_def)
  from post success
  have us: "users s' = users s @ [?user]"
    by (auto simp: users_post_def Let_def bad_def fail_def created_def users_post_catch_def User_create_def
        split: if_splits option.splits sum.splits)
  from post success
  have ts: "(?L \<noteq> [] \<and> Task_assignMany ?L newId ?nm (tasks s) = Inr (tasks s')) \<or> (?L = [] \<and> tasks s' = tasks s)"
    by (auto simp: users_post_def Let_def bad_def fail_def created_def users_post_catch_def
        split: if_splits option.splits sum.splits)
  then have "length (tasks s') = length (tasks s)
     \<and> (\<forall>k<length (tasks s).
           (t_id (tasks s ! k) \<in> set ?L \<and> \<not> completed (tasks s ! k)
              \<longrightarrow> tasks s' ! k = (tasks s ! k)\<lparr>assignedUser := newId, assignedUserName := ?nm\<rparr>)
         \<and> (completed (tasks s ! k)
              \<or> (\<forall>x\<in>set ?L. castObjectId x \<noteq> Some (t_id (tasks s ! k)))
              \<longrightarrow> tasks s' ! k = tasks s ! k))"
  proof
    assume a: "?L \<noteq> [] \<and> Task_assignMany ?L newId ?nm (tasks s) = Inr (tasks s')"
    then have m: "Task_assignMany ?L newId ?nm (tasks s) = Inr (tasks s')" by simp
    show ?thesis
      using Task_assignMany_nth [OF m] canon by auto
  next
    assume "?L = [] \<and> tasks s' = tasks s"
    then show ?thesis by simp
  qed
  with us show ?thesis by simp
qed

theorem users_post_assigns_listed_tasks_witness:
  "task_ids_wf (tasks demo_store)
   \<and> status (fst (users_post cat_id 9
        \<lparr>ub_name = Some ''Cat'', ub_email = Some ''cat@x.org'', ub_pendingTasks = Some [task_a, task_b]\<rparr>
        demo_store)) = 201
   \<and> tasks (snd (users_post cat_id 9
        \<lparr>ub_name = Some ''Cat'', ub_email = Some ''cat@x.org'', ub_pendingTasks = Some [task_a, task_b]\<rparr>
        demo_store)) ! 0 = (tasks demo_store ! 0)\<lparr>assignedUser := cat_id, assignedUserName := ''Cat''\<rparr>
   \<and> tasks (snd (users_post cat_id 9
        \<lparr>ub_name = Some ''Cat'', ub_email = Some ''cat@x.org'', ub_pendingTasks = Some [task_a, task_b]\<rparr>
        demo_store)) ! 1 = tasks demo_store ! 1
   \<and> pendingTasks (users (snd (users_post cat_id 9
        \<lparr>ub_name = Some ''Cat'', ub_email = Some ''cat@x.org'', ub_pendingTasks = Some [task_a, task_b]\<rparr>
        demo_store)) ! 0) = [task_a]"
proof -
  let ?b = "\<lparr>ub_name = Some ''Cat'', ub_email = Some ''cat@x.org'', ub_pendingTasks = Some [task_a, task_b]\<rparr>"
  obtain r s' where post: "users_post cat_id 9 ?b demo_store = (r, s')"
    by (cases "users_post cat_id 9 ?b demo_store")
  have "status (fst (users_post cat_id 9 ?b demo_store)) = 201"
    by code_simp
  with post have success: "status r = 201" by simp
  have nm: "trim (orElse (ub_name ?b) []) = ''Cat''"
    by code_simp
  have facts: "0 < length (tasks demo_store)" "1 < length (tasks demo_store)"
    "t_id (tasks demo_store ! 0) \<in> set (orElse (ub_pendingTasks ?b) [])"
    "\<not> completed (tasks demo_store ! 0)" "completed (tasks demo_store ! 1)"
    "pendingTasks (users demo_store ! 0) = [task_a]"
    by (simp_all add: demo_store_def orElse_def ann_def)
  from users_post_assigns_listed_tasks [OF demo_store_wf(1) post success]
  have len: "length (tasks s') = length (tasks demo_store)"
    and ts: "\<And>k. k < length (tasks demo_store) \<Longrightarrow>
           (t_id (tasks demo_store ! k) \<in> set (orElse (ub_pendingTasks ?b) []) \<and> \<not> completed (tasks demo_store ! k)
              \<longrightarrow> tasks s' ! k = (tasks demo_store ! k)\<lparr>assignedUser := cat_id,
                                                  assignedUserName := trim (orElse (ub_name ?b) [])\<rparr>)
         \<and> (completed (tasks demo_store ! k)
              \<or> (\<forall>x\<in>set (orElse (ub_pendingTasks ?b) []). castObjectId x \<noteq> Some (t_id (tasks demo_store ! k)))
              \<longrightarrow> tasks s' ! k = tasks demo_store ! k)"
    and us: "users s' = users demo_store @ [\<lparr>u_id = cat_id, u_name = trim (orElse (ub_name ?b) []),
                                email = emailSetters (orElse (ub_email ?b) []),
                                pendingTasks = orElse (ub_pendingTasks ?b) [],
                                u_dateCreated = 9\<rparr>]"
    by blast+
  from ts [OF facts(1)] facts(3,4) nm
  have a: "tasks s' ! 0 = (tasks demo_store ! 0)\<lparr>assignedUser := cat_id, assignedUserName := ''Cat''\<rparr>"
    by simp
  from ts [OF facts(2)] facts(5)
  have b: "tasks s' ! 1 = tasks demo_store ! 1"
    by blast
  from us facts(6) have c: "pendingTasks (users s' ! 0) = [task_a]"
    by (simp add: demo_store_def nth_append)
  from a b c success post demo_store_wf(1) show ?thesis
    by simp
qed


subsection \<open>Replacing a user\<close>

lemma Task_unassignIds_nth:
  assumes "Task_unassignIds ids ts = Inr ts'"
  shows "length ts' = length ts"
    and "k < length ts \<Longrightarrow>
      ts' ! k = (if (\<exists>x\<in>set ids. castObjectId x = Some (t_id (ts ! k)))
                 then (ts ! k)\<lparr>assignedUser := [], assignedUserName := ''unassigned''\<rparr> else ts ! k)"
  using assms
  by (auto simp: Task_unassignIds_def updateAll_def castAll_set split: option.splits)

lemma find_Some_key: "find (\<lambda>x. key x = k) xs = Some y \<Longrightarrow> key y = k \<and> y \<in> set xs"
  by (induction xs) (auto split: if_splits)

lemma User_findById_Some:
  "User_findById us i = Inr (Some u) \<Longrightarrow> castObjectId i = Some (u_id u) \<and> u \<in> set us"
  by (auto simp: User_findById_def split: option.splits dest: find_Some_key)

text \<open>What a successful PUT /users/:id has done, step by step.\<close>

lemma users_put_success:
  assumes put: "users_put i b s = (r, s')" and success: "status r = 200"
  obtains before ts1 where
    "User_findById (users s) i = Inr (Some before)"
    "User_save (before\<lparr>u_name := trim (orElse (ub_name b) []),
                        email := emailSetters (orElse (ub_email b) []),
                        pendingTasks := orElse (ub_pendingTasks b) []\<rparr>) (users s) = Inr (users s')"
    "Task_assignMany (orElse (ub_pendingTasks b) []) (u_id before) (trim (orElse (ub_name b) []))
        (tasks s) = Inr ts1"
    "let dropIds = filter (\<lambda>tid. tid \<notin> set (orElse (ub_pendingTasks b) []))
                     (map t_id (Task_pendingOf (u_id before) ts1))
     in (dropIds \<noteq> [] \<and> Task_unassignIds dropIds ts1 = Inr (tasks s')) \<or> (dropIds = [] \<and> tasks s' = ts1)"
  using put success
  unfolding users_put_def
  by (auto simp: Let_def bad_def fail_def ok_def notFound_def users_put_catch_def
      split: if_splits option.splits sum.splits)

text \<open>
  After a PUT /users/{id} answered with 200, with \<open>L\<close> the new
  \<open>pendingTasks\<close> and membership in \<open>L\<close> read as equality of strings: every
  task not completed whose printed identifier is in \<open>L\<close> is assigned to this
  user under the user's new name; every task that was assigned to this user,
  is not completed and whose printed identifier is not in \<open>L\<close> ends
  unassigned; a completed task whose printed identifier is in \<open>L\<close> is left as
  it was.
\<close>

lemma users_put_syncs_tasks:
  assumes wf: "task_ids_wf (tasks s)"
    and put: "users_put i b s = (r, s')"
    and success: "status r = 200"
  shows "\<exists>u. User_findById (users s) i = Inr (Some u)
     \<and> (\<exists>u'\<in>set (users s'). u_id u' = u_id u \<and> u_name u' = trim (orElse (ub_name b) [])
            \<and> pendingTasks u' = orElse (ub_pendingTasks b) [])
     \<and> length (tasks s') = length (tasks s)
     \<and> (\<forall>k<length (tasks s).
           (t_id (tasks s ! k) \<in> set (orElse (ub_pendingTasks b) []) \<and> \<not> completed (tasks s ! k)
              \<longrightarrow> tasks s' ! k = (tasks s ! k)\<lparr>assignedUser := u_id u,
                                                  assignedUserName := trim (orElse (ub_name b) [])\<rparr>)
         \<and> (assignedUser (tasks s ! k) = u_id u \<and> \<not> completed (tasks s ! k)
              \<and> t_id (tasks s ! k) \<notin> set (orElse (ub_pendingTasks b) [])
              \<longrightarrow> tasks s' ! k = (tasks s ! k)\<lparr>assignedUser := [], assignedUserName := ''unassigned''\<rparr>)
         \<and> (t_id (tasks s ! k) \<in> set (orElse (ub_pendingTasks b) []) \<and> completed (tasks s ! k)
              \<longrightarrow> tasks s' ! k = tasks s ! k))"
proof -
  let ?L = "orElse (ub_pendingTasks b) []"
  let ?nm = "trim (orElse (ub_name b) [])"
  from users_put_success [OF put success]
  obtain before ts1 where
    found: "User_findById (users s) i = Inr (Some before)"
    and saved: "User_save (before\<lparr>u_name := ?nm, email := emailSetters (orElse (ub_email b) []),
                        pendingTasks := ?L\<rparr>) (users s) = Inr (users s')"
    and assigned: "Task_assignMany ?L (u_id before) ?nm (tasks s) = Inr ts1"
    and dropped: "let dropIds = filter (\<lambda>tid. tid \<notin> set ?L) (map t_id (Task_pendingOf (u_id before) ts1))
     in (dropIds \<noteq> [] \<and> Task_unassignIds dropIds ts1 = Inr (tasks s')) \<or> (dropIds = [] \<and> tasks s' = ts1)"
    by blast
  let ?uid = "u_id before"
  let ?drop = "filter (\<lambda>tid. tid \<notin> set ?L) (map t_id (Task_pendingOf ?uid ts1))"
  have canon: "\<And>k. k < length (tasks s) \<Longrightarrow> castObjectId (t_id (tasks s ! k)) = Some (t_id (tasks s ! k))"
    using wf by (simp add: task_ids_wf_def canonicalId_def)
  have inj: "\<And>j k. j < length (tasks s) \<Longrightarrow> k < length (tasks s)
      \<Longrightarrow> t_id (tasks s ! j) = t_id (tasks s ! k) \<Longrightarrow> j = k"
    using wf by (simp add: task_ids_wf_def distinct_conv_nth) blast
  note a1 = Task_assignMany_nth [OF assigned]
  have id1: "\<And>k. k < length (tasks s) \<Longrightarrow> t_id (ts1 ! k) = t_id (tasks s ! k)"
    and cp1: "\<And>k. k < length (tasks s) \<Longrightarrow> completed (ts1 ! k) = completed (tasks s ! k)"
    by (simp_all add: a1)
  \<comment> \<open>the user record\<close>
  from found have mem: "before \<in> set (users s)"
    by (simp add: User_findById_Some)
  let ?user = "before\<lparr>u_name := ?nm, email := emailSetters (orElse (ub_email b) []), pendingTasks := ?L\<rparr>"
  have upd: "\<And>us. before \<in> set us \<Longrightarrow> ?user \<in> set (updateFirst (\<lambda>x. u_id x = u_id ?user) (\<lambda>_. ?user) us)"
  proof -
    fix us show "before \<in> set us \<Longrightarrow> ?user \<in> set (updateFirst (\<lambda>x. u_id x = u_id ?user) (\<lambda>_. ?user) us)"
      by (induction us) auto
  qed
  from saved mem have user': "?user \<in> set (users s')"
    using upd [of "users s"] by (auto simp: User_save_def split: if_splits)
  \<comment> \<open>which tasks the drop pass reaches\<close>
  have drop_iff: "\<And>k. k < length (tasks s) \<Longrightarrow>
      (\<exists>x\<in>set ?drop. castObjectId x = Some (t_id (ts1 ! k)))
        \<longleftrightarrow> assignedUser (ts1 ! k) = ?uid \<and> \<not> completed (ts1 ! k) \<and> t_id (ts1 ! k) \<notin> set ?L"
  proof -
    fix k assume k: "k < length (tasks s)"
    have canon_drop: "\<And>x. x \<in> set ?drop \<Longrightarrow> castObjectId x = Some x"
    proof -
      fix x assume "x \<in> set ?drop"
      then obtain t where "t \<in> set ts1" "t_id t = x" by (auto simp: Task_pendingOf_def)
      then obtain j where "j < length ts1" "t_id (ts1 ! j) = x" by (metis in_set_conv_nth)
      with a1(1) canon [of j] id1 [of j] show "castObjectId x = Some x" by simp
    qed
    show "(\<exists>x\<in>set ?drop. castObjectId x = Some (t_id (ts1 ! k)))
        \<longleftrightarrow> assignedUser (ts1 ! k) = ?uid \<and> \<not> completed (ts1 ! k) \<and> t_id (ts1 ! k) \<notin> set ?L"
    proof
      assume "\<exists>x\<in>set ?drop. castObjectId x = Some (t_id (ts1 ! k))"
      then obtain x where x: "x \<in> set ?drop" "castObjectId x = Some (t_id (ts1 ! k))" by blast
      with canon_drop have xk: "x = t_id (ts1 ! k)" by force
      from x(1) obtain t where t: "t \<in> set ts1" "t_id t = x" "assignedUser t = ?uid" "\<not> completed t"
        and notin: "x \<notin> set ?L"
        by (auto simp: Task_pendingOf_def)
      from t(1) obtain j where j: "j < length ts1" "ts1 ! j = t" by (metis in_set_conv_nth)
      with t(2) xk id1 [of j] id1 [OF k] a1(1) have "t_id (tasks s ! j) = t_id (tasks s ! k)" by simp
      with inj j(1) k a1(1) have "j = k" by simp
      with j t notin xk show "assignedUser (ts1 ! k) = ?uid \<and> \<not> completed (ts1 ! k) \<and> t_id (ts1 ! k) \<notin> set ?L"
        by simp
    next
      assume r: "assignedUser (ts1 ! k) = ?uid \<and> \<not> completed (ts1 ! k) \<and> t_id (ts1 ! k) \<notin> set ?L"
      from k a1(1) have "ts1 ! k \<in> set ts1" by simp
      with r have "t_id (ts1 ! k) \<in> set ?drop" by (auto simp: Task_pendingOf_def)
      with canon_drop show "\<exists>x\<in>set ?drop. castObjectId x = Some (t_id (ts1 ! k))" by blast
    qed
  qed
  have final: "length (tasks s') = length (tasks s) \<and> (\<forall>k<length (tasks s).
      tasks s' ! k = (if assignedUser (ts1 ! k) = ?uid \<and> \<not> completed (ts1 ! k) \<and> t_id (ts1 ! k) \<notin> set ?L
                      then (ts1 ! k)\<lparr>assignedUser := [], assignedUserName := ''unassigned''\<rparr> else ts1 ! k))"
  proof (cases "?drop = []")
    case True
    with dropped have eq: "tasks s' = ts1" by (simp add: Let_def)
    have "\<And>k. k < length (tasks s) \<Longrightarrow>
       \<not> (assignedUser (ts1 ! k) = ?uid \<and> \<not> completed (ts1 ! k) \<and> t_id (ts1 ! k) \<notin> set ?L)"
      using drop_iff True by (metis empty_iff list.set(1))
    with eq a1(1) show ?thesis by auto
  next
    case False
    with dropped have u: "Task_unassignIds ?drop ts1 = Inr (tasks s')" by (simp add: Let_def)
    from Task_unassignIds_nth [OF u] a1(1) drop_iff show ?thesis by simp
  qed
  have "\<forall>k<length (tasks s).
           (t_id (tasks s ! k) \<in> set ?L \<and> \<not> completed (tasks s ! k)
              \<longrightarrow> tasks s' ! k = (tasks s ! k)\<lparr>assignedUser := ?uid, assignedUserName := ?nm\<rparr>)
         \<and> (assignedUser (tasks s ! k) = ?uid \<and> \<not> completed (tasks s ! k) \<and> t_id (tasks s ! k) \<notin> set ?L
              \<longrightarrow> tasks s' ! k = (tasks s ! k)\<lparr>assignedUser := [], assignedUserName := ''unassigned''\<rparr>)
         \<and> (t_id (tasks s ! k) \<in> set ?L \<and> completed (tasks s ! k)
              \<longrightarrow> tasks s' ! k = tasks s ! k)"
  proof (intro allI impI)
    fix k assume k: "k < length (tasks s)"
    from final k have f: "tasks s' ! k = (if assignedUser (ts1 ! k) = ?uid \<and> \<not> completed (ts1 ! k) \<and> t_id (ts1 ! k) \<notin> set ?L
                      then (ts1 ! k)\<lparr>assignedUser := [], assignedUserName := ''unassigned''\<rparr> else ts1 ! k)"
      by simp
    note one = a1(2) [OF k]
    show "(t_id (tasks s ! k) \<in> set ?L \<and> \<not> completed (tasks s ! k)
              \<longrightarrow> tasks s' ! k = (tasks s ! k)\<lparr>assignedUser := ?uid, assignedUserName := ?nm\<rparr>)
         \<and> (assignedUser (tasks s ! k) = ?uid \<and> \<not> completed (tasks s ! k) \<and> t_id (tasks s ! k) \<notin> set ?L
              \<longrightarrow> tasks s' ! k = (tasks s ! k)\<lparr>assignedUser := [], assignedUserName := ''unassigned''\<rparr>)
         \<and> (t_id (tasks s ! k) \<in> set ?L \<and> completed (tasks s ! k)
              \<longrightarrow> tasks s' ! k = tasks s ! k)"
      using f one canon [OF k] id1 [OF k] cp1 [OF k]
      by (cases "(\<exists>x\<in>set ?L. castObjectId x = Some (t_id (tasks s ! k))) \<and> \<not> completed (tasks s ! k)") auto
  qed
  moreover have "\<exists>u'\<in>set (users s'). u_id u' = u_id before \<and> u_name u' = ?nm \<and> pendingTasks u' = ?L"
    using user' by (intro bexI [of _ ?user]) simp_all
  ultimately show ?thesis
    using final found by (intro exI [of _ before]) blast
qed

text \<open>
  Claim C4 says that no task whose identifier is in the new list is
  unassigned by the same request. The set-assignment pass matches the list by
  cast (\<open>_id: { $in: ... }\<close>), the drop pass by string (\<open>nowSet.has(tid)\<close>):
  when Bob's new list names his pending third task with upper-case digits,
  the request succeeds (200), the first pass assigns the task to Bob, the
  second finds its printed identifier missing from the list and unassigns it,
  and Bob's stored list still names it.
\<close>

theorem users_put_listed_task_unassigned:
  "castObjectId task_c_upper = Some (t_id (tasks demo_store ! 2))
   \<and> \<not> completed (tasks demo_store ! 2)
   \<and> assignedUser (tasks demo_store ! 2) = bob_id
   \<and> status (fst (users_put bob_id bob_body demo_store)) = 200
   \<and> tasks (snd (users_put bob_id bob_body demo_store)) ! 2
        = (tasks demo_store ! 2)\<lparr>assignedUser := [], assignedUserName := ''unassigned''\<rparr>
   \<and> pendingTasks (users (snd (users_put bob_id bob_body demo_store)) ! 1) = [task_c_upper]"
  by code_simp

theorem users_put_listed_task_unassigned_witness:
  "status (fst (users_put bob_id bob_body demo_store)) = 200
   \<and> assignedUser (tasks (snd (users_put bob_id bob_body demo_store)) ! 2) = []
   \<and> assignedUserName (tasks (snd (users_put bob_id bob_body demo_store)) ! 2) = ''unassigned''"
  using users_put_listed_task_unassigned by simp


subsection \<open>What the synchronizer does to the users' lists\<close>

lemma set_addToSet [simp]: "set (addToSet x xs) = insert x (set xs)"
  by (auto simp: addToSet_def)

lemma set_pull [simp]: "set (pull x xs) = set xs - {x}"
  by (auto simp: pull_def)

lemma count_addToSet:
  "count_list (addToSet x xs) y = (if y = x \<and> x \<notin> set xs then 1 else count_list xs y)"
  by (auto simp: addToSet_def count_list_0_iff)

lemma pull_addToSet: "pull x (addToSet x xs) = pull x xs"
  by (simp add: pull_def addToSet_def)

lemma pull_idem: "pull x (pull x xs) = pull x xs"
  by (simp add: pull_def)

lemma addToSet_idem: "addToSet x (addToSet x xs) = addToSet x xs"
  by (simp add: addToSet_def)

lemma updateFirst_distinct_key:
  "distinct (map key xs) \<Longrightarrow>
     updateFirst (\<lambda>x. key x = k) f xs = map (\<lambda>x. if key x = k then f x else x) xs"
proof (induction xs)
  case Nil
  then show ?case by simp
next
  case (Cons a xs)
  show ?case
  proof (cases "key a = k")
    case True
    with Cons.prems have "\<forall>y\<in>set xs. key y \<noteq> k" by (auto simp: image_iff)
    then have "map (\<lambda>x. if key x = k then f x else x) xs = xs"
      by (induction xs) auto
    with True show ?thesis by simp
  next
    case False
    with Cons show ?thesis by simp
  qed
qed

lemma User_addPending_wf:
  assumes "user_ids_wf us"
  shows "User_addPending i tid us =
     (case castObjectId i of
        None \<Rightarrow> Inl CastError
      | Some oid \<Rightarrow> Inr (map (\<lambda>u. if u_id u = oid
                                  then u\<lparr>pendingTasks := addToSet tid (pendingTasks u)\<rparr> else u) us))"
  using assms
  by (simp add: User_addPending_def user_ids_wf_def updateFirst_distinct_key split: option.splits)

lemma User_pullPending_wf:
  assumes "user_ids_wf us"
  shows "User_pullPending i tid us =
     (case castObjectId i of
        None \<Rightarrow> Inl CastError
      | Some oid \<Rightarrow> Inr (map (\<lambda>u. if u_id u = oid
                                  then u\<lparr>pendingTasks := pull tid (pendingTasks u)\<rparr> else u) us))"
  using assms
  by (simp add: User_pullPending_def user_ids_wf_def updateFirst_distinct_key split: option.splits)

lemma user_ids_wf_map:
  "user_ids_wf us \<Longrightarrow> (\<And>u. u_id (f u) = u_id u) \<Longrightarrow> user_ids_wf (map f us)"
proof -
  assume wf: "user_ids_wf us" and f: "\<And>u. u_id (f u) = u_id u"
  then have "map u_id (map f us) = map u_id us" by simp
  with wf show ?thesis
    unfolding user_ids_wf_def by (metis (no_types, lifting) f imageE list.set_map)
qed

lemma castObjectId_Nil [simp]: "castObjectId [] = None"
  by (simp add: castObjectId_def isValidId_def)

text \<open>
  On users with unique identifiers the synchronizer runs to its end exactly
  when the identifiers it is given can be cast, and then it rewrites each
  user's list on its own: the entry is added for the assignee of a pending
  task, then removed for a previous assignee named by a different string, then
  removed for the assignee of a completed task.
\<close>

lemma sync_casts:
  assumes wf: "user_ids_wf us"
    and run: "syncUserPendingForTask t prev us = (None, us')"
  shows "(assignedUser t \<noteq> [] \<longrightarrow> castObjectId (assignedUser t) \<noteq> None)
       \<and> (truthy prev \<and> orElse prev [] \<noteq> assignedUser t \<longrightarrow> castObjectId (orElse prev []) \<noteq> None)"
proof -
  have a: "\<And>i tid vs. castObjectId i = None \<Longrightarrow> User_addPending i tid vs = Inl CastError"
    and p: "\<And>i tid vs. castObjectId i = None \<Longrightarrow> User_pullPending i tid vs = Inl CastError"
    by (simp_all add: User_addPending_def User_pullPending_def)
  show ?thesis
  proof (intro conjI impI)
    assume ne: "assignedUser t \<noteq> []"
    show "castObjectId (assignedUser t) \<noteq> None"
    proof
      assume none: "castObjectId (assignedUser t) = None"
      show False
      proof (cases "completed t")
        case False
        with ne none run a show False
          by (simp add: syncUserPendingForTask_def)
      next
        case True
        with ne none run p show False
          by (auto simp: syncUserPendingForTask_def split: sum.splits if_splits)
      qed
    qed
  next
    assume b: "truthy prev \<and> orElse prev [] \<noteq> assignedUser t"
    show "castObjectId (orElse prev []) \<noteq> None"
    proof
      assume none: "castObjectId (orElse prev []) = None"
      with b run p show False
        by (auto simp: syncUserPendingForTask_def split: sum.splits if_splits)
    qed
  qed
qed

lemma sync_runs:
  assumes wf: "user_ids_wf us"
    and castA: "assignedUser t \<noteq> [] \<longrightarrow> castObjectId (assignedUser t) \<noteq> None"
    and castB: "truthy prev \<and> orElse prev [] \<noteq> assignedUser t \<longrightarrow> castObjectId (orElse prev []) \<noteq> None"
  shows "syncUserPendingForTask t prev us = (None, map (\<lambda>u. u\<lparr>pendingTasks :=
      (let p1 = (if \<not> completed t \<and> castObjectId (assignedUser t) = Some (u_id u)
                 then addToSet (t_id t) (pendingTasks u) else pendingTasks u);
           p2 = (if orElse prev [] \<noteq> assignedUser t \<and> castObjectId (orElse prev []) = Some (u_id u)
                 then pull (t_id t) p1 else p1)
       in if completed t \<and> castObjectId (assignedUser t) = Some (u_id u)
          then pull (t_id t) p2 else p2)\<rparr>) us)"
    (is "_ = (None, map ?F us)")
proof -
  let ?A = "\<lambda>u. if u_id u = the (castObjectId (assignedUser t))
                 then u\<lparr>pendingTasks := addToSet (t_id t) (pendingTasks u)\<rparr> else u"
  let ?B = "\<lambda>u. if u_id u = the (castObjectId (orElse prev []))
                 then u\<lparr>pendingTasks := pull (t_id t) (pendingTasks u)\<rparr> else u"
  let ?C = "\<lambda>u. if u_id u = the (castObjectId (assignedUser t))
                 then u\<lparr>pendingTasks := pull (t_id t) (pendingTasks u)\<rparr> else u"
  let ?condA = "\<not> completed t \<and> assignedUser t \<noteq> []"
  let ?condB = "truthy prev \<and> orElse prev [] \<noteq> assignedUser t"
  let ?condC = "completed t \<and> assignedUser t \<noteq> []"
  define us1 where "us1 = (if ?condA then map ?A us else us)"
  define us2 where "us2 = (if ?condB then map ?B us1 else us1)"
  define us3 where "us3 = (if ?condC then map ?C us2 else us2)"
  have wf1: "user_ids_wf us1"
    unfolding us1_def using wf by (auto intro: user_ids_wf_map)
  have wf2: "user_ids_wf us2"
    unfolding us2_def using wf1 by (auto intro: user_ids_wf_map)
  have s1: "(if ?condA then User_addPending (assignedUser t) (t_id t) us else Inr us) = Inr us1"
    using castA wf by (auto simp: us1_def User_addPending_wf split: option.splits)
  have s2: "(if ?condB then User_pullPending (orElse prev []) (t_id t) us1 else Inr us1) = Inr us2"
    using castB wf1 by (auto simp: us2_def User_pullPending_wf split: option.splits)
  have s3: "(if completed t \<or> assignedUser t = []
             then (if assignedUser t \<noteq> [] then User_pullPending (assignedUser t) (t_id t) us2 else Inr us2)
             else Inr us2) = Inr us3"
    using castA wf2 by (auto simp: us3_def User_pullPending_wf split: option.splits)
  have "us3 = map ?F us"
    unfolding us3_def us2_def us1_def
    using castA castB
    by (auto simp: Let_def truthy_def orElse_def split: option.splits)
  with s1 s2 s3 show ?thesis
    by (simp add: syncUserPendingForTask_def)
qed

lemma sync_lists:
  assumes wf: "user_ids_wf us"
    and run: "syncUserPendingForTask t prev us = (None, us')"
  shows "us' = map (\<lambda>u. u\<lparr>pendingTasks :=
      (let p1 = (if \<not> completed t \<and> castObjectId (assignedUser t) = Some (u_id u)
                 then addToSet (t_id t) (pendingTasks u) else pendingTasks u);
           p2 = (if orElse prev [] \<noteq> assignedUser t \<and> castObjectId (orElse prev []) = Some (u_id u)
                 then pull (t_id t) p1 else p1)
       in if completed t \<and> castObjectId (assignedUser t) = Some (u_id u)
          then pull (t_id t) p2 else p2)\<rparr>) us"
  using sync_runs [OF wf, of t prev] sync_casts [OF wf run] run
  by simp

text \<open>Running the synchronizer again on its own result changes nothing.\<close>

lemma sync_idempotent:
  assumes wf: "user_ids_wf us"
    and run: "syncUserPendingForTask t prev us = (None, us')"
  shows "syncUserPendingForTask t prev us' = (None, us')"
proof -
  note casts = sync_casts [OF wf run]
  note first = sync_lists [OF wf run]
  have wf': "user_ids_wf us'"
    by (subst first) (rule user_ids_wf_map [OF wf], simp)
  have "syncUserPendingForTask t prev us' = (None, map (\<lambda>u. u\<lparr>pendingTasks :=
      (let p1 = (if \<not> completed t \<and> castObjectId (assignedUser t) = Some (u_id u)
                 then addToSet (t_id t) (pendingTasks u) else pendingTasks u);
           p2 = (if orElse prev [] \<noteq> assignedUser t \<and> castObjectId (orElse prev []) = Some (u_id u)
                 then pull (t_id t) p1 else p1)
       in if completed t \<and> castObjectId (assignedUser t) = Some (u_id u)
          then pull (t_id t) p2 else p2)\<rparr>) us')"
    using sync_runs [OF wf', of t prev] casts by blast
  also have "map (\<lambda>u. u\<lparr>pendingTasks :=
      (let p1 = (if \<not> completed t \<and> castObjectId (assignedUser t) = Some (u_id u)
                 then addToSet (t_id t) (pendingTasks u) else pendingTasks u);
           p2 = (if orElse prev [] \<noteq> assignedUser t \<and> castObjectId (orElse prev []) = Some (u_id u)
                 then pull (t_id t) p1 else p1)
       in if completed t \<and> castObjectId (assignedUser t) = Some (u_id u)
          then pull (t_id t) p2 else p2)\<rparr>) us' = us'"
    by (subst (1 2) first)
       (simp add: Let_def addToSet_idem pull_idem pull_addToSet)
  finally show ?thesis .
qed


subsection \<open>Replacing a task\<close>

text \<open>What a successful PUT /tasks/:id has done.\<close>

lemma tasks_put_success:
  assumes put: "tasks_put i b s = (r, s')" and success: "status r = 200"
  shows "\<exists>before nm.
      Task_findById (tasks s) i = Inr (Some before)
    \<and> (let t = before\<lparr>t_name := trim (orElse (b_name b) []),
                       description := trim (orElse (b_description b) []),
                       deadline := orElse (b_deadline b) 0,
                       completed := orElse (b_completed b) False,
                       assignedUser := trim (orElse (b_assignedUser b) []),
                       assignedUserName := nm\<rparr>
       in r = ok (TaskDoc None t) ''OK''
        \<and> Task_save t (tasks s) = Inr (tasks s')
        \<and> syncUserPendingForTask t (Some (assignedUser before)) (users s) = (None, users s'))"
proof (cases "Task_findById (tasks s) i")
  case (Inl e)
  with put success show ?thesis
    by (auto simp: tasks_put_def bad_def fail_def notFound_def tasks_write_catch_def split: if_splits)
next
  case (Inr found)
  show ?thesis
  proof (cases found)
    case None
    with Inr put success show ?thesis
      by (auto simp: tasks_put_def bad_def fail_def notFound_def tasks_write_catch_def split: if_splits)
  next
    case (Some before)
    let ?b1 = "before\<lparr>t_name := trim (orElse (b_name b) []),
                       description := trim (orElse (b_description b) []),
                       deadline := orElse (b_deadline b) 0,
                       completed := orElse (b_completed b) False,
                       assignedUser := trim (orElse (b_assignedUser b) [])\<rparr>"
    from put success Inr Some
    have "\<exists>nm. r = ok (TaskDoc None (?b1\<lparr>assignedUserName := nm\<rparr>)) ''OK''
        \<and> Task_save (?b1\<lparr>assignedUserName := nm\<rparr>) (tasks s) = Inr (tasks s')
        \<and> syncUserPendingForTask (?b1\<lparr>assignedUserName := nm\<rparr>) (Some (assignedUser before)) (users s)
            = (None, users s')"
      unfolding tasks_put_def
      by (simp add: Let_def bad_def fail_def notFound_def tasks_write_catch_def
          split: if_splits option.splits sum.splits prod.splits) auto
    with Inr Some show ?thesis
      by (simp add: Let_def)
  qed
qed

text \<open>
  Claim C2. A PUT /tasks/{id} answered with 200 that moves a task from a
  previous, non-empty assignee U1 to a different assignee U2 applies all
  three rules of the synchronizer in the one request: afterwards the task's
  identifier is not in U1's \<open>pendingTasks\<close>; it is in U2's if the task is
  saved as not completed; and it is not in U2's if the task is saved as
  completed. Nothing but the \<open>pendingTasks\<close> lists of the users changes in
  the user store.
\<close>

theorem tasks_put_moves_pending_entry:
  assumes wf: "user_ids_wf (users s)"
    and put: "tasks_put i b s = (r, s')"
    and success: "status r = 200"
    and before: "Task_findById (tasks s) i = Inr (Some before)"
    and prev: "assignedUser before \<noteq> []"
    and differ: "castObjectId (assignedUser before) \<noteq> castObjectId (trim (orElse (b_assignedUser b) []))"
  shows "\<exists>t. r = ok (TaskDoc None t) ''OK'' \<and> t_id t = t_id before
       \<and> assignedUser t = trim (orElse (b_assignedUser b) [])
       \<and> completed t = orElse (b_completed b) False
       \<and> map u_id (users s') = map u_id (users s)
       \<and> (\<forall>u'\<in>set (users s').
            (castObjectId (assignedUser before) = Some (u_id u') \<longrightarrow> t_id t \<notin> set (pendingTasks u'))
          \<and> (castObjectId (assignedUser t) = Some (u_id u') \<and> \<not> completed t
                \<longrightarrow> t_id t \<in> set (pendingTasks u'))
          \<and> (castObjectId (assignedUser t) = Some (u_id u') \<and> completed t
                \<longrightarrow> t_id t \<notin> set (pendingTasks u')))"
proof -
  from tasks_put_success [OF put success] before
  obtain nm where
    r: "r = ok (TaskDoc None (before\<lparr>t_name := trim (orElse (b_name b) []),
                       description := trim (orElse (b_description b) []),
                       deadline := orElse (b_deadline b) 0,
                       completed := orElse (b_completed b) False,
                       assignedUser := trim (orElse (b_assignedUser b) []),
                       assignedUserName := nm\<rparr>)) ''OK''"
    and sync: "syncUserPendingForTask (before\<lparr>t_name := trim (orElse (b_name b) []),
                       description := trim (orElse (b_description b) []),
                       deadline := orElse (b_deadline b) 0,
                       completed := orElse (b_completed b) False,
                       assignedUser := trim (orElse (b_assignedUser b) []),
                       assignedUserName := nm\<rparr>) (Some (assignedUser before)) (users s) = (None, users s')"
    by (auto simp: Let_def)
  define t where "t = before\<lparr>t_name := trim (orElse (b_name b) []),
                       description := trim (orElse (b_description b) []),
                       deadline := orElse (b_deadline b) 0,
                       completed := orElse (b_completed b) False,
                       assignedUser := trim (orElse (b_assignedUser b) []),
                       assignedUserName := nm\<rparr>"
  have fields: "t_id t = t_id before" "assignedUser t = trim (orElse (b_assignedUser b) [])"
    "completed t = orElse (b_completed b) False"
    by (simp_all add: t_def)
  from differ fields have d: "castObjectId (assignedUser before) \<noteq> castObjectId (assignedUser t)"
    by simp
  then have ne: "assignedUser before \<noteq> assignedUser t" by auto
  from sync have sync': "syncUserPendingForTask t (Some (assignedUser before)) (users s) = (None, users s')"
    by (simp add: t_def)
  note lists = sync_lists [OF wf sync']
  have ids: "map u_id (users s') = map u_id (users s)"
    by (subst lists) (simp add: Let_def)
  have "\<forall>u'\<in>set (users s').
            (castObjectId (assignedUser before) = Some (u_id u') \<longrightarrow> t_id t \<notin> set (pendingTasks u'))
          \<and> (castObjectId (assignedUser t) = Some (u_id u') \<and> \<not> completed t
                \<longrightarrow> t_id t \<in> set (pendingTasks u'))
          \<and> (castObjectId (assignedUser t) = Some (u_id u') \<and> completed t
                \<longrightarrow> t_id t \<notin> set (pendingTasks u'))"
  proof
    fix u' assume "u' \<in> set (users s')"
    with lists obtain u where u: "u \<in> set (users s)"
      and u': "u' = u\<lparr>pendingTasks :=
      (let p1 = (if \<not> completed t \<and> castObjectId (assignedUser t) = Some (u_id u)
                 then addToSet (t_id t) (pendingTasks u) else pendingTasks u);
           p2 = (if orElse (Some (assignedUser before)) [] \<noteq> assignedUser t
                    \<and> castObjectId (orElse (Some (assignedUser before)) []) = Some (u_id u)
                 then pull (t_id t) p1 else p1)
       in if completed t \<and> castObjectId (assignedUser t) = Some (u_id u)
          then pull (t_id t) p2 else p2)\<rparr>"
      by auto
    show "(castObjectId (assignedUser before) = Some (u_id u') \<longrightarrow> t_id t \<notin> set (pendingTasks u'))
          \<and> (castObjectId (assignedUser t) = Some (u_id u') \<and> \<not> completed t
                \<longrightarrow> t_id t \<in> set (pendingTasks u'))
          \<and> (castObjectId (assignedUser t) = Some (u_id u') \<and> completed t
                \<longrightarrow> t_id t \<notin> set (pendingTasks u'))"
      using d ne by (auto simp: u' Let_def orElse_def)
  qed
  with r fields ids show ?thesis
    unfolding t_def [symmetric] by blast
qed

theorem tasks_put_moves_pending_entry_witness:
  "user_ids_wf (users demo_store)
   \<and> (\<exists>r s'. tasks_put task_a
          \<lparr>b_name = Some ''write'', b_description = None, b_deadline = Some 10, b_completed = None,
            b_assignedUser = Some bob_id, b_assignedUserName = None\<rparr> demo_store = (r, s')
        \<and> status r = 200
        \<and> Task_findById (tasks demo_store) task_a = Inr (Some (tasks demo_store ! 0))
        \<and> assignedUser (tasks demo_store ! 0) = ann_id
        \<and> castObjectId ann_id \<noteq> castObjectId bob_id
        \<and> map u_id (users s') = [ann_id, bob_id]
        \<and> (\<forall>u'\<in>set (users s').
              (u_id u' = ann_id \<longrightarrow> task_a \<notin> set (pendingTasks u'))
            \<and> (u_id u' = bob_id \<longrightarrow> task_a \<in> set (pendingTasks u'))))"
proof -
  let ?b = "\<lparr>b_name = Some ''write'', b_description = None, b_deadline = Some 10, b_completed = None,
            b_assignedUser = Some bob_id, b_assignedUserName = None\<rparr>"
  obtain r s' where put: "tasks_put task_a ?b demo_store = (r, s')"
    by (cases "tasks_put task_a ?b demo_store")
  have "status (fst (tasks_put task_a ?b demo_store)) = 200"
    by code_simp
  with put have success: "status r = 200" by simp
  have before: "Task_findById (tasks demo_store) task_a = Inr (Some (tasks demo_store ! 0))"
    by code_simp
  have prev: "assignedUser (tasks demo_store ! 0) = ann_id" and tid: "t_id (tasks demo_store ! 0) = task_a"
    and ids: "map u_id (users demo_store) = [ann_id, bob_id]"
    by (simp_all add: demo_store_def ann_def bob_def)
  have new: "trim (orElse (b_assignedUser ?b) []) = bob_id"
    by code_simp
  have casts: "castObjectId ann_id = Some ann_id" "castObjectId bob_id = Some bob_id" "ann_id \<noteq> bob_id"
    "ann_id \<noteq> []"
    using demo_ids_canonical demo_ids_distinct by (auto simp: canonicalId_def)
  have differ: "castObjectId (assignedUser (tasks demo_store ! 0)) \<noteq> castObjectId (trim (orElse (b_assignedUser ?b) []))"
    unfolding prev new using casts by simp
  have nonempty: "assignedUser (tasks demo_store ! 0) \<noteq> []"
    unfolding prev using casts by simp
  from tasks_put_moves_pending_entry [OF demo_store_wf(2) put success before nonempty differ]
  obtain t :: task where t: "t_id t = task_a" "assignedUser t = bob_id" "completed t = orElse (b_completed ?b) False"
    and same: "map u_id (users s') = map u_id (users demo_store)"
    and lists: "\<forall>u'\<in>set (users s').
            (castObjectId ann_id = Some (u_id u') \<longrightarrow> t_id t \<notin> set (pendingTasks u'))
          \<and> (castObjectId (assignedUser t) = Some (u_id u') \<and> \<not> completed t
                \<longrightarrow> t_id t \<in> set (pendingTasks u'))"
    unfolding prev new tid by blast
  from t(3) have pending: "\<not> completed t" by (simp add: orElse_def)
  from lists t(1,2) pending casts
  have "\<forall>u'\<in>set (users s').
              (u_id u' = ann_id \<longrightarrow> task_a \<notin> set (pendingTasks u'))
            \<and> (u_id u' = bob_id \<longrightarrow> task_a \<in> set (pendingTasks u'))"
    by auto
  with put success before prev casts same ids demo_store_wf(2) show ?thesis
    by auto
qed


subsection \<open>Saving a pending task twice\<close>

lemma tasks_post_sync:
  assumes post: "tasks_post newId now b s = (created (TaskDoc None t), s')"
  shows "syncUserPendingForTask t None (users s) = (None, users s')"
  using post
  unfolding tasks_post_def
  by (simp add: Let_def bad_def fail_def created_def tasks_write_catch_def
      split: if_splits option.splits sum.splits prod.splits) auto

lemma tasks_put_sync:
  assumes put: "tasks_put i b s = (ok (TaskDoc None t) ''OK'', s')"
  shows "\<exists>before. Task_findById (tasks s) i = Inr (Some before)
     \<and> syncUserPendingForTask t (Some (assignedUser before)) (users s) = (None, users s')"
proof -
  have "status (ok (TaskDoc None t) ''OK'') = 200" by (simp add: ok_def)
  from tasks_put_success [OF put this] show ?thesis
    by (auto simp: Let_def ok_def)
qed

lemma sync_entry:
  assumes wf: "user_ids_wf us" and u: "u \<in> set us"
    and assignee: "castObjectId (assignedUser t) = Some (u_id u)" and pending: "\<not> completed t"
    and prev: "orElse prev [] = assignedUser t \<or> castObjectId (orElse prev []) \<noteq> Some (u_id u)"
    and run: "syncUserPendingForTask t prev us = (None, us')"
  shows "u\<lparr>pendingTasks := (if t_id t \<in> set (pendingTasks u) then pendingTasks u
                             else pendingTasks u @ [t_id t])\<rparr> \<in> set us'"
proof -
  note lists = sync_lists [OF wf run]
  from u have "(\<lambda>u. u\<lparr>pendingTasks :=
      (let p1 = (if \<not> completed t \<and> castObjectId (assignedUser t) = Some (u_id u)
                 then addToSet (t_id t) (pendingTasks u) else pendingTasks u);
           p2 = (if orElse prev [] \<noteq> assignedUser t \<and> castObjectId (orElse prev []) = Some (u_id u)
                 then pull (t_id t) p1 else p1)
       in if completed t \<and> castObjectId (assignedUser t) = Some (u_id u)
          then pull (t_id t) p2 else p2)\<rparr>) u \<in> set us'"
    by (subst lists) (rule imageI [of u "set us", folded set_map])
  with assignee pending prev show ?thesis
    by (auto simp: Let_def addToSet_def)
qed

text \<open>
  Claim C3, amended. After a task T has been created (201) or replaced (200)
  as not completed with an \<open>assignedUser\<close> that names a stored user U (for a
  replace: the previous \<open>assignedUser\<close> being the same string, or not naming
  U), U's \<open>pendingTasks\<close> is what it was if it held T's identifier already,
  and what it was followed by T's identifier if it did not: the entry is
  there, and the synchronizer never adds a second copy. Running the
  synchronizer again on its own result changes nothing.
\<close>

theorem pending_entry_not_duplicated:
  assumes wf: "user_ids_wf (users s)" and u: "u \<in> set (users s)"
    and assignee: "castObjectId (assignedUser t) = Some (u_id u)" and pending: "\<not> completed t"
  shows "(tasks_post newId now b s = (created (TaskDoc None t), s')
            \<longrightarrow> u\<lparr>pendingTasks := (if t_id t \<in> set (pendingTasks u) then pendingTasks u
                                       else pendingTasks u @ [t_id t])\<rparr> \<in> set (users s'))
       \<and> (tasks_put i b s = (ok (TaskDoc None t) ''OK'', s')
            \<and> Task_findById (tasks s) i = Inr (Some before)
            \<and> (assignedUser before = assignedUser t \<or> castObjectId (assignedUser before) \<noteq> Some (u_id u))
            \<longrightarrow> u\<lparr>pendingTasks := (if t_id t \<in> set (pendingTasks u) then pendingTasks u
                                       else pendingTasks u @ [t_id t])\<rparr> \<in> set (users s'))
       \<and> (syncUserPendingForTask t prev (users s) = (None, us')
            \<longrightarrow> syncUserPendingForTask t prev us' = (None, us'))"
proof (intro conjI impI)
  assume "tasks_post newId now b s = (created (TaskDoc None t), s')"
  then have "syncUserPendingForTask t None (users s) = (None, users s')"
    by (rule tasks_post_sync)
  with sync_entry [OF wf u assignee pending, of None "users s'"] assignee
  show "u\<lparr>pendingTasks := (if t_id t \<in> set (pendingTasks u) then pendingTasks u
                                       else pendingTasks u @ [t_id t])\<rparr> \<in> set (users s')"
    by (simp add: orElse_def)
next
  assume a: "tasks_put i b s = (ok (TaskDoc None t) ''OK'', s')
            \<and> Task_findById (tasks s) i = Inr (Some before)
            \<and> (assignedUser before = assignedUser t \<or> castObjectId (assignedUser before) \<noteq> Some (u_id u))"
  with tasks_put_sync [of i b s t s']
  have "syncUserPendingForTask t (Some (assignedUser before)) (users s) = (None, users s')"
    by auto
  with sync_entry [OF wf u assignee pending, of "Some (assignedUser before)" "users s'"] a
  show "u\<lparr>pendingTasks := (if t_id t \<in> set (pendingTasks u) then pendingTasks u
                                       else pendingTasks u @ [t_id t])\<rparr> \<in> set (users s')"
    by (simp add: orElse_def)
next
  assume "syncUserPendingForTask t prev (users s) = (None, us')"
  with wf show "syncUserPendingForTask t prev us' = (None, us')"
    by (rule sync_idempotent)
qed

theorem pending_entry_not_duplicated_witness:
  "user_ids_wf (users demo_store) \<and> bob \<in> set (users demo_store)
   \<and> tasks_put task_a move_body demo_store
       = (ok (TaskDoc None (tasks (snd (tasks_put task_a move_body demo_store)) ! 0)) ''OK'',
          snd (tasks_put task_a move_body demo_store))
   \<and> Task_findById (tasks demo_store) task_a = Inr (Some (tasks demo_store ! 0))
   \<and> castObjectId (assignedUser (tasks demo_store ! 0)) \<noteq> Some (u_id bob)
   \<and> bob\<lparr>pendingTasks := [task_c, task_a]\<rparr> \<in> set (users (snd (tasks_put task_a move_body demo_store)))
   \<and> tasks_post task_d 7 move_body demo_store
       = (created (TaskDoc None (tasks (snd (tasks_post task_d 7 move_body demo_store)) ! 3)),
          snd (tasks_post task_d 7 move_body demo_store))
   \<and> bob\<lparr>pendingTasks := [task_c, task_d]\<rparr> \<in> set (users (snd (tasks_post task_d 7 move_body demo_store)))
   \<and> syncUserPendingForTask (tasks demo_store ! 2) None (users demo_store) = (None, users demo_store)"
proof -
  let ?t = "tasks (snd (tasks_put task_a move_body demo_store)) ! 0"
  let ?n = "tasks (snd (tasks_post task_d 7 move_body demo_store)) ! 3"
  have mem: "bob \<in> set (users demo_store)"
    by (simp add: demo_store_def)
  have put: "tasks_put task_a move_body demo_store
       = (ok (TaskDoc None ?t) ''OK'', snd (tasks_put task_a move_body demo_store))"
    by code_simp
  have post: "tasks_post task_d 7 move_body demo_store
       = (created (TaskDoc None ?n), snd (tasks_post task_d 7 move_body demo_store))"
    by code_simp
  have t: "castObjectId (assignedUser ?t) = Some (u_id bob)" "\<not> completed ?t" "t_id ?t = task_a"
    by code_simp+
  have n: "castObjectId (assignedUser ?n) = Some (u_id bob)" "\<not> completed ?n" "t_id ?n = task_d"
    by code_simp+
  have c: "castObjectId (assignedUser (tasks demo_store ! 2)) = Some (u_id bob)"
    "\<not> completed (tasks demo_store ! 2)"
    by code_simp+
  have before: "Task_findById (tasks demo_store) task_a = Inr (Some (tasks demo_store ! 0))"
    by code_simp
  have other: "castObjectId (assignedUser (tasks demo_store ! 0)) \<noteq> Some (u_id bob)"
    by code_simp
  have sync: "syncUserPendingForTask (tasks demo_store ! 2) None (users demo_store) = (None, users demo_store)"
    by code_simp
  have fresh: "task_a \<notin> set (pendingTasks bob)" "task_d \<notin> set (pendingTasks bob)"
    "pendingTasks bob = [task_c]"
    using demo_ids_distinct by (auto simp: bob_def)
  from pending_entry_not_duplicated [OF demo_store_wf(2) mem t(1,2),
      where i = task_a and b = move_body and s' = "snd (tasks_put task_a move_body demo_store)"
        and before = "tasks demo_store ! 0"]
    put before other t(3) fresh
  have one: "bob\<lparr>pendingTasks := [task_c, task_a]\<rparr> \<in> set (users (snd (tasks_put task_a move_body demo_store)))"
    by simp
  from pending_entry_not_duplicated [OF demo_store_wf(2) mem n(1,2),
      where newId = task_d and now = 7 and b = move_body
        and s' = "snd (tasks_post task_d 7 move_body demo_store)"]
    post n(3) fresh
  have two: "bob\<lparr>pendingTasks := [task_c, task_d]\<rparr> \<in> set (users (snd (tasks_post task_d 7 move_body demo_store)))"
    by simp
  from pending_entry_not_duplicated [OF demo_store_wf(2) mem c,
      where prev = None and us' = "users demo_store"] sync
  have three: "syncUserPendingForTask (tasks demo_store ! 2) None (users demo_store) = (None, users demo_store)"
    by simp
  from demo_store_wf(2) mem put before other one post two three show ?thesis
    by blast
qed

text \<open>
  Claim C3 as stated fails: a user record may list a task twice (a PUT
  /users stores the list it is given), and re-saving the task, pending and
  assigned to that user, leaves both copies. The store \<open>twice_store\<close> is
  reached from the empty store by three requests; the replace of its task
  succeeds, and afterwards the user's list still holds the identifier twice.
\<close>

theorem resaved_task_listed_twice:
  "run fresh listed_twice empty_store = Some twice_store
   \<and> tasks_put task_a write_body twice_store
       = (ok (TaskDoc None (hd (tasks twice_store))) ''OK'', twice_store)
   \<and> \<not> completed (hd (tasks twice_store))
   \<and> assignedUser (hd (tasks twice_store)) = u_id (hd (users twice_store))
   \<and> count_list (pendingTasks (hd (users twice_store))) (t_id (hd (tasks twice_store))) = 2"
  by code_simp


subsection \<open>Defaults of the list endpoints\<close>

lemma newestFirst_sorted:
  "sorted_wrt (\<lambda>a b. t_dateCreated b \<le> t_dateCreated a) (newestFirst ts)"
proof -
  have "sorted (map (\<lambda>t. - t_dateCreated t) (newestFirst ts))"
    unfolding newestFirst_def by (rule sorted_sort_key)
  then show ?thesis
    by (simp add: sorted_map)
qed

lemma tasks_get_default:
  assumes lim: "q_limit q = None" and srt: "q_sort q = JAbsent"
    and res: "tasks_get q s = ok (TaskDocs sel docs) m"
  shows "\<exists>found. findWhere (q_where q) (tasks s) = Inr found
     \<and> docs = take 100 (drop (case toInt (q_skip q) 0 of None \<Rightarrow> 0 | Some n \<Rightarrow> nat n)
                          (newestFirst found))"
  using res lim srt
  unfolding tasks_get_def
  by (auto simp: Let_def ok_def bad_def fail_def tasks_list_catch_def applySkip_def applyLimit_def
      split: if_splits sum.splits option.splits)

lemma users_get_default:
  assumes lim: "q_limit q = None" and srt: "q_sort q = JAbsent"
    and res: "users_get q s = ok (UserDocs sel docs) m"
  shows "\<exists>found. findWhere (q_where q) (users s) = Inr found
     \<and> docs = drop (case toInt (q_skip q) 0 of None \<Rightarrow> 0 | Some n \<Rightarrow> nat n) found"
  using res lim srt
  unfolding users_get_def
  by (auto simp: Let_def ok_def bad_def fail_def users_list_catch_def applySkip_def applyLimit_def
      split: if_splits sum.splits option.splits)

text \<open>
  In \<open>routes/tasks.js\<close> a GET /tasks without \<open>limit\<close> and without \<open>sort\<close>
  that returns records returns at most 100 of them, newest first: ordered by
  \<open>dateCreated\<close>, descending; they are the first 100, after the skip, of the
  matching tasks in that order. A GET /users without \<open>limit\<close> and without
  \<open>sort\<close> that returns records returns all the matching users after the skip,
  however many, in the order the store yields them.
\<close>

lemma list_defaults:
  "(q_limit q = None \<and> q_sort q = JAbsent \<and> tasks_get q s = ok (TaskDocs sel docs) m
      \<longrightarrow> length docs \<le> 100
        \<and> sorted_wrt (\<lambda>a b. t_dateCreated b \<le> t_dateCreated a) docs
        \<and> (\<exists>found. findWhere (q_where q) (tasks s) = Inr found
              \<and> docs = take 100 (drop (case toInt (q_skip q) 0 of None \<Rightarrow> 0 | Some n \<Rightarrow> nat n)
                                   (newestFirst found))))
 \<and> (q_limit uq = None \<and> q_sort uq = JAbsent \<and> users_get uq s = ok (UserDocs usel udocs) um
      \<longrightarrow> (\<exists>found. findWhere (q_where uq) (users s) = Inr found
              \<and> udocs = drop (case toInt (q_skip uq) 0 of None \<Rightarrow> 0 | Some n \<Rightarrow> nat n) found))"
proof (intro conjI impI)
  assume a: "q_limit q = None \<and> q_sort q = JAbsent \<and> tasks_get q s = ok (TaskDocs sel docs) m"
  then have "q_limit q = None" "q_sort q = JAbsent" "tasks_get q s = ok (TaskDocs sel docs) m"
    by simp_all
  from tasks_get_default [OF this]
  obtain found where f: "findWhere (q_where q) (tasks s) = Inr found"
    and d: "docs = take 100 (drop (case toInt (q_skip q) 0 of None \<Rightarrow> 0 | Some n \<Rightarrow> nat n)
                          (newestFirst found))"
    by blast
  from d show "length docs \<le> 100" by simp
  from d newestFirst_sorted [of found]
  show "sorted_wrt (\<lambda>a b. t_dateCreated b \<le> t_dateCreated a) docs"
    by simp
  from f d show "\<exists>found. findWhere (q_where q) (tasks s) = Inr found
              \<and> docs = take 100 (drop (case toInt (q_skip q) 0 of None \<Rightarrow> 0 | Some n \<Rightarrow> nat n)
                                   (newestFirst found))"
    by blast
next
  assume "q_limit uq = None \<and> q_sort uq = JAbsent \<and> users_get uq s = ok (UserDocs usel udocs) um"
  then have "q_limit uq = None" "q_sort uq = JAbsent" "users_get uq s = ok (UserDocs usel udocs) um"
    by simp_all
  from users_get_default [OF this]
  show "\<exists>found. findWhere (q_where uq) (users s) = Inr found
              \<and> udocs = drop (case toInt (q_skip uq) 0 of None \<Rightarrow> 0 | Some n \<Rightarrow> nat n) found"
    by blast
qed

text \<open>
  Claim C8 says that a GET /tasks without \<open>limit\<close> and without \<open>sort\<close>
  returns its records ordered by creation time, descending. The older copy of
  the task routes has the cap of 100 but no default sort: on the test store,
  whose tasks are held oldest first, it returns them oldest first, where the
  handler of \<open>routes/tasks.js\<close> returns them newest first.
\<close>

theorem tasks_get_part001_unsorted:
  "q_limit (plain_query :: task list_query) = None
   \<and> q_sort (plain_query :: task list_query) = JAbsent
   \<and> tasks_get_part001 plain_query demo_store = ok (TaskDocs None (tasks demo_store)) ''OK''
   \<and> map t_dateCreated (tasks demo_store) = [3, 4, 5]
   \<and> \<not> sorted_wrt (\<lambda>a b. t_dateCreated b \<le> t_dateCreated a) (tasks demo_store)
   \<and> tasks_get plain_query demo_store
        = ok (TaskDocs None [tasks demo_store ! 2, tasks demo_store ! 1, tasks demo_store ! 0]) ''OK''"
proof -
  have "q_limit (plain_query :: task list_query) = None"
    and "q_sort (plain_query :: task list_query) = JAbsent"
    by (simp_all add: plain_query_def)
  moreover have "tasks_get_part001 plain_query demo_store = ok (TaskDocs None (tasks demo_store)) ''OK''"
    by code_simp
  moreover have "map t_dateCreated (tasks demo_store) = [3, 4, 5]"
    by code_simp
  moreover have "\<not> sorted_wrt (\<lambda>a b. t_dateCreated b \<le> t_dateCreated a) (tasks demo_store)"
    by code_simp
  moreover have "tasks_get plain_query demo_store
        = ok (TaskDocs None [tasks demo_store ! 2, tasks demo_store ! 1, tasks demo_store ! 0]) ''OK''"
    by code_simp
  ultimately show ?thesis by blast
qed

theorem tasks_get_part001_unsorted_witness:
  "tasks_get_part001 plain_query demo_store = ok (TaskDocs None (tasks demo_store)) ''OK''
   \<and> \<not> sorted_wrt (\<lambda>a b. t_dateCreated b \<le> t_dateCreated a) (tasks demo_store)"
  using tasks_get_part001_unsorted by blast

end
